theory Spec2Isabelle
  imports Complex_Main "HOL-Library.Multiset"
begin

section \<open>Numbers, vectors and matrices\<close>

text \<open>
  The source computes in IEEE doubles (and stores point coordinates as floats). The model
  idealises every such number as a \<^typ>\<open>real\<close>: no rounding, no NaN, no infinity. Comparisons,
  the order of evaluation and the parenthesisation of every expression are kept as written.
  An \<open>Eigen::Vector3d\<close> is a triple, an \<open>Eigen::Matrix3d\<close> a triple of rows.
\<close>

type_synonym vec3 = "real \<times> real \<times> real"
type_synonym mat3 = "vec3 \<times> vec3 \<times> vec3"

definition vzero :: vec3 where
  "vzero = (0, 0, 0)"

fun vadd :: "vec3 \<Rightarrow> vec3 \<Rightarrow> vec3" where
  "vadd (a, b, c) (d, e, f) = (a + d, b + e, c + f)"

fun vsub :: "vec3 \<Rightarrow> vec3 \<Rightarrow> vec3" where
  "vsub (a, b, c) (d, e, f) = (a - d, b - e, c - f)"

fun vneg :: "vec3 \<Rightarrow> vec3" where
  "vneg (a, b, c) = (- a, - b, - c)"

fun smul :: "real \<Rightarrow> vec3 \<Rightarrow> vec3" where
  "smul k (a, b, c) = (k * a, k * b, k * c)"

fun vdivs :: "vec3 \<Rightarrow> real \<Rightarrow> vec3" where
  "vdivs (a, b, c) k = (a / k, b / k, c / k)"

fun dot :: "vec3 \<Rightarrow> vec3 \<Rightarrow> real" where
  "dot (a, b, c) (d, e, f) = a * d + b * e + c * f"

fun cross :: "vec3 \<Rightarrow> vec3 \<Rightarrow> vec3" where
  "cross (a, b, c) (d, e, f) = (b * f - c * e, c * d - a * f, a * e - b * d)"

definition vnorm :: "vec3 \<Rightarrow> real" where
  "vnorm v = sqrt (dot v v)"

definition normalized :: "vec3 \<Rightarrow> vec3" where
  \<comment> \<open>Eigen's \<open>normalized()\<close>: a vector of squared norm 0 is returned as
      it is.\<close>
  "normalized v = (if dot v v > 0 then vdivs v (sqrt (dot v v)) else v)"

definition mat_id :: mat3 where
  "mat_id = ((1, 0, 0), (0, 1, 0), (0, 0, 1))"

fun mat_vec :: "mat3 \<Rightarrow> vec3 \<Rightarrow> vec3" where
  "mat_vec (r1, r2, r3) v = (dot r1 v, dot r2 v, dot r3 v)"

fun transpose3 :: "mat3 \<Rightarrow> mat3" where
  "transpose3 ((a, b, c), (d, e, f), (g, h, i)) = ((a, d, g), (b, e, h), (c, f, i))"

fun mat_mul :: "mat3 \<Rightarrow> mat3 \<Rightarrow> mat3" where
  "mat_mul (r1, r2, r3) m =
     (let t = transpose3 m
      in (mat_vec t r1, mat_vec t r2, mat_vec t r3))"

fun mat_add :: "mat3 \<Rightarrow> mat3 \<Rightarrow> mat3" where
  "mat_add (r1, r2, r3) (q1, q2, q3) = (vadd r1 q1, vadd r2 q2, vadd r3 q3)"

fun mat_scale :: "real \<Rightarrow> mat3 \<Rightarrow> mat3" where
  "mat_scale k (r1, r2, r3) = (smul k r1, smul k r2, smul k r3)"

fun skew :: "vec3 \<Rightarrow> mat3" where
  "skew (a, b, c) = ((0, - c, b), (c, 0, - a), (- b, a, 0))"

text \<open>
  A covariance or noise matrix is indexed by row and column. Its dimension is fixed by the
  estimator's declaration, which this file does not need: \<open>setIdentity\<close> and the diagonal
  block assignments \<open>M.block<n, n>(k, k) = Identity * c\<close> are written index-wise.
\<close>

type_synonym cov = "nat \<Rightarrow> nat \<Rightarrow> real"

definition cov_identity :: cov where
  "cov_identity = (\<lambda>i j. if i = j then 1 else 0)"

definition set_block :: "nat \<Rightarrow> nat \<Rightarrow> real \<Rightarrow> cov \<Rightarrow> cov" where
  "set_block k n c M =
     (\<lambda>i j. if k \<le> i \<and> i < k + n \<and> k \<le> j \<and> j < k + n
            then (if i = j then c else 0) else M i j)"

section \<open>Data model\<close>

record IMUData =
  timestamp :: real
  imu_acc :: vec3
  imu_gyro :: vec3

text \<open>
  A scan point: the coordinates \<open>x\<close>, \<open>y\<close>, \<open>z\<close> and the per-point time offset in
  milliseconds, kept in the field \<open>curvature\<close>. The other fields of the point type are
  neither read nor written by this code.
\<close>

record PointType =
  px :: real
  py :: real
  pz :: real
  curvature :: real

record Pose =
  offset :: real
  pose_acc :: vec3
  pose_gyro :: vec3
  pose_vel :: vec3
  pose_pos :: vec3
  pose_rot :: mat3

text \<open>The estimator's mean state \<open>kf::State\<close>; \<open>grav\<close> is the field \<open>g\<close> of the source.\<close>

record State =
  rot :: mat3
  pos :: vec3
  vel :: vec3
  bg :: vec3
  ba :: vec3
  grav :: vec3
  rot_ext :: mat3
  pos_ext :: vec3

record Input =
  inp_acc :: vec3
  inp_gyro :: vec3

text \<open>
  The shared estimator \<open>kf::IESKF\<close>: its mean state \<open>x()\<close> and covariance \<open>P()\<close>.
  \<open>predict_calls\<close> is a ghost field: the arguments \<open>(inp, dt)\<close> of every call of
  \<open>predict\<close>, in call order. No code reads it.
\<close>

record IESKF =
  kf_x :: State
  kf_P :: cov
  predict_calls :: "(Input \<times> real) list"

text \<open>
  The fields of the configuration this code reads. \<open>imu_init_num\<close> is compared with the size
  of the sample buffer and is a natural number here.
\<close>

record Config =
  ng :: real
  na :: real
  nbg :: real
  nba :: real
  imu_init_num :: nat
  gravity_align :: bool
  r_il :: mat3
  p_il :: vec3

record SyncPackage =
  imus :: "IMUData list"
  cloud :: "PointType list"
  cloud_start_time :: real
  cloud_end_time :: real

record IMUProcessor =
  m_config :: Config
  m_kf :: IESKF
  m_Q :: cov
  m_last_acc :: vec3
  m_last_gyro :: vec3
  m_imu_cache :: "IMUData list"
  m_imu_poses_cache :: "Pose list"
  m_last_imu :: IMUData
  m_last_end_time :: real
  is_initialized :: bool

datatype fault = EmptyVectorBack | IteratorOutOfRange

section \<open>Operations the source calls and does not define\<close>

text \<open>
  \<open>kf::IESKF::predict\<close>, \<open>kf::State::initG\<close>, \<open>Sophus::SO3d::exp\<close>,
  \<open>Eigen::Quaterniond::FromTwoVectors\<close> and the default-constructed \<open>kf::Input\<close> are
  parameters of the model. Every general theorem below holds for all of them.
\<close>

type_synonym predict_fn = "Input \<Rightarrow> real \<Rightarrow> cov \<Rightarrow> State \<times> cov \<Rightarrow> State \<times> cov"

record externals =
  predict :: predict_fn
  initG :: "vec3 \<Rightarrow> State \<Rightarrow> State"
  SO3_exp :: "vec3 \<Rightarrow> mat3"
  FromTwoVectors :: "vec3 \<Rightarrow> vec3 \<Rightarrow> mat3"
  Input_default :: Input

definition kf_predict :: "predict_fn \<Rightarrow> Input \<Rightarrow> real \<Rightarrow> cov \<Rightarrow> IESKF \<Rightarrow> IESKF" where
  \<comment> \<open>\<open>m_kf->predict(inp, dt, m_Q)\<close>: mean and covariance advance in
      place.\<close>
  "kf_predict f inp dt Q kf =
     (let r = f inp dt Q (kf_x kf, kf_P kf)
      in kf\<lparr>kf_x := fst r, kf_P := snd r,
             predict_calls := predict_calls kf @ [(inp, dt)]\<rparr>)"

section \<open>The constructor\<close>

definition IMUProcessor_new :: "Config \<Rightarrow> IESKF \<Rightarrow> IMUData \<Rightarrow> real \<Rightarrow> IMUProcessor" where
  \<comment> \<open>\<open>last_imu0\<close> and \<open>end_time0\<close> stand for the two members the constructor body does
      not assign.\<close>
  "IMUProcessor_new config kf last_imu0 end_time0 =
     \<lparr>m_config = config, m_kf = kf,
      m_Q = set_block 9 3 (nba config) (set_block 6 3 (nbg config)
              (set_block 3 3 (na config) (set_block 0 3 (ng config) cov_identity))),
      m_last_acc = vzero, m_last_gyro = vzero,
      m_imu_cache = [], m_imu_poses_cache = [],
      m_last_imu = last_imu0, m_last_end_time = end_time0,
      is_initialized = False\<rparr>"

section \<open>initialize\<close>

definition initialize ::
  "externals \<Rightarrow> IMUData list \<Rightarrow> IMUProcessor \<Rightarrow> fault + (bool \<times> IMUProcessor)" where
  "initialize ext imus_in s =
     (let cache = m_imu_cache s @ imus_in;
          s1 = s\<lparr>m_imu_cache := cache\<rparr>;
          config = m_config s
      in if length cache < imu_init_num config then Inr (False, s1)
         else
           let (acc_sum, gyro_sum) =
                 foldl (\<lambda>(a, g) imu. (vadd a (imu_acc imu), vadd g (imu_gyro imu)))
                       (vzero, vzero) cache;
               acc_mean = vdivs acc_sum (real (length cache));
               gyro_mean = vdivs gyro_sum (real (length cache));
               x1 = (kf_x (m_kf s))\<lparr>rot_ext := r_il config, pos_ext := p_il config,
                                     bg := gyro_mean\<rparr>;
               x2 = (if gravity_align config
                     then initG ext (0, 0, - 1)
                            (x1\<lparr>rot := FromTwoVectors ext (normalized (vneg acc_mean))
                                                          (0, 0, - 1)\<rparr>)
                     else initG ext (vneg acc_mean) x1);
               P1 = set_block 21 2 (1 / 100000) (set_block 18 3 (1 / 10000)
                      (set_block 15 3 (1 / 10000) (set_block 9 3 (1 / 100000)
                        (set_block 6 3 (1 / 100000) cov_identity))))
           in if cache = [] then Inl EmptyVectorBack
              else Inr (True, s1\<lparr>m_kf := (m_kf s)\<lparr>kf_x := x2, kf_P := P1\<rparr>,
                                  m_last_imu := last cache\<rparr>))"

section \<open>undistort: propagation\<close>

definition integrate_step ::
  "externals \<Rightarrow> real \<Rightarrow> IMUData \<Rightarrow> IMUData \<Rightarrow> IMUProcessor \<times> Input \<Rightarrow> IMUProcessor \<times> Input"
  where
  \<comment> \<open>One iteration of the loop over the window, for the pair \<open>(head, tail)\<close>. The local
      \<open>inp\<close> survives the loop, so it is threaded with the processor.\<close>
  "integrate_step ext cloud_time_begin head tail st =
     (let s = fst st; inp = snd st
      in if timestamp tail < m_last_end_time s then (s, inp)
         else
           let gyro_val = smul (1 / 2) (vadd (imu_gyro head) (imu_gyro tail));
               acc_val = smul (1 / 2) (vadd (imu_acc head) (imu_acc tail));
               dt = (if timestamp head < m_last_end_time s
                     then timestamp tail - m_last_end_time s
                     else timestamp tail - timestamp head);
               inp' = inp\<lparr>inp_acc := acc_val, inp_gyro := gyro_val\<rparr>;
               kf' = kf_predict (predict ext) inp' dt (m_Q s) (m_kf s);
               x = kf_x kf';
               last_gyro = vsub gyro_val (bg x);
               last_acc = vadd (mat_vec (rot x) (vsub acc_val (ba x))) (grav x);
               off = timestamp tail - cloud_time_begin
           in (s\<lparr>m_kf := kf', m_last_gyro := last_gyro, m_last_acc := last_acc,
                  m_imu_poses_cache := m_imu_poses_cache s @
                    [\<lparr>offset = off, pose_acc = last_acc, pose_gyro = last_gyro,
                      pose_vel = vel x, pose_pos = pos x, pose_rot = rot x\<rparr>]\<rparr>,
               inp'))"

fun integrate_loop ::
  "externals \<Rightarrow> real \<Rightarrow> IMUData list \<Rightarrow> IMUProcessor \<times> Input \<Rightarrow> IMUProcessor \<times> Input"
  where
  "integrate_loop ext t0 (head # tail # rest) st =
     integrate_loop ext t0 (tail # rest) (integrate_step ext t0 head tail st)"
| "integrate_loop ext t0 [head] st = st"
| "integrate_loop ext t0 [] st = st"

definition propagate :: "externals \<Rightarrow> SyncPackage \<Rightarrow> IMUProcessor \<Rightarrow> IMUProcessor" where
  \<comment> \<open>The first half of \<open>undistort\<close>, up to the update of the anchor and of the last end time.
      The window starts with the anchor, so \<open>front()\<close> and \<open>back()\<close> are defined.\<close>
  "propagate ext package s =
     (let cache = m_last_imu s # imus package;
          imu_time_end = timestamp (last cache);
          cloud_time_begin = cloud_start_time package;
          cloud_time_end = cloud_end_time package;
          x = kf_x (m_kf s);
          s1 = s\<lparr>m_imu_cache := cache,
                 m_imu_poses_cache :=
                   [\<lparr>offset = 0, pose_acc = m_last_acc s, pose_gyro = m_last_gyro s,
                     pose_vel = vel x, pose_pos = pos x, pose_rot = rot x\<rparr>]\<rparr>;
          st = integrate_loop ext cloud_time_begin cache (s1, Input_default ext);
          s2 = fst st; inp = snd st;
          dt = cloud_time_end - imu_time_end;
          s3 = s2\<lparr>m_kf := kf_predict (predict ext) inp dt (m_Q s2) (m_kf s2)\<rparr>
      in s3\<lparr>m_last_imu := last cache, m_last_end_time := cloud_time_end\<rparr>)"

section \<open>undistort: motion compensation\<close>

text \<open>
  A ghost record of one overwrite of a scan point: the index of the point, the pose-cache
  interval in use, and the point before and after. The walk appends one for every execution
  of the inner loop's body; no code reads them.
\<close>

record Write =
  w_index :: nat
  w_head :: Pose
  w_tail :: Pose
  w_before :: PointType
  w_after :: PointType

definition compensate :: "externals \<Rightarrow> State \<Rightarrow> Pose \<Rightarrow> Pose \<Rightarrow> PointType \<Rightarrow> PointType" where
  \<comment> \<open>The body of the inner loop. \<open>cur\<close> holds \<open>cur_rot\<close>, \<open>cur_pos\<close>, \<open>cur_rot_ext\<close> and
      \<open>cur_pos_ext\<close>, the copies taken from the estimator after propagation.\<close>
  "compensate ext cur head tail p =
     (let imu_rot = pose_rot head; imu_pos = pose_pos head; imu_vel = pose_vel head;
          imu_acc = pose_acc tail; imu_gyro = pose_gyro tail;
          dt = curvature p / 1000 - offset head;
          point = (px p, py p, pz p);
          point_rot = mat_mul imu_rot (SO3_exp ext (smul dt imu_gyro));
          point_pos = vadd (vadd imu_pos (smul dt imu_vel))
                           (smul dt (smul dt (smul (1 / 2) imu_acc)));
          p_compensate =
            mat_vec (transpose3 (rot_ext cur))
              (vsub (mat_vec (transpose3 (rot cur))
                       (vsub (vadd (mat_vec point_rot
                                      (vadd (mat_vec (rot_ext cur) point) (pos_ext cur)))
                                   point_pos)
                             (pos cur)))
                    (pos_ext cur))
      in p\<lparr>px := fst p_compensate, py := fst (snd p_compensate),
             pz := snd (snd p_compensate)\<rparr>)"

text \<open>
  The inner loop. The iterator \<open>it_pcl\<close> is an index into the points; it is an \<^typ>\<open>int\<close>
  because \<open>points.end() - 1\<close> of an empty scan lies one before the first point. The loop
  condition reads through the iterator, which is a fault outside the sequence.
\<close>

function inner_walk ::
  "externals \<Rightarrow> State \<Rightarrow> Pose \<Rightarrow> Pose \<Rightarrow> PointType list \<Rightarrow> int \<Rightarrow> Write list
     \<Rightarrow> fault + (PointType list \<times> int \<times> Write list)" where
  "inner_walk ext cur head tail pts it_pcl ws =
     (if it_pcl < 0 \<or> int (length pts) \<le> it_pcl then Inl IteratorOutOfRange
      else if curvature (pts ! nat it_pcl) / 1000 > offset head
      then (if it_pcl = 0
            then Inr (pts[nat it_pcl := compensate ext cur head tail (pts ! nat it_pcl)],
                      it_pcl,
                      ws @ [\<lparr>w_index = nat it_pcl, w_head = head, w_tail = tail,
                              w_before = pts ! nat it_pcl,
                              w_after = compensate ext cur head tail (pts ! nat it_pcl)\<rparr>])
            else inner_walk ext cur head tail
                   (pts[nat it_pcl := compensate ext cur head tail (pts ! nat it_pcl)])
                   (it_pcl - 1)
                   (ws @ [\<lparr>w_index = nat it_pcl, w_head = head, w_tail = tail,
                           w_before = pts ! nat it_pcl,
                           w_after = compensate ext cur head tail (pts ! nat it_pcl)\<rparr>]))
      else Inr (pts, it_pcl, ws))"
  by pat_completeness auto
termination
  by (relation "measure (\<lambda>(ext, cur, head, tail, pts, it_pcl, ws). nat it_pcl)") auto

declare inner_walk.simps [simp del]

text \<open>
  The outer loop runs \<open>it_kp\<close> from the last pose-cache entry down to the second, with
  \<open>tail = it_kp\<close> and \<open>head = it_kp - 1\<close>: on the reversed cache these are the consecutive
  pairs from the front.
\<close>

fun outer_walk ::
  "externals \<Rightarrow> State \<Rightarrow> Pose list \<Rightarrow> PointType list \<times> int \<times> Write list
     \<Rightarrow> fault + (PointType list \<times> int \<times> Write list)" where
  "outer_walk ext cur (tail # head # rest) w =
     (case inner_walk ext cur head tail (fst w) (fst (snd w)) (snd (snd w)) of
        Inl e \<Rightarrow> Inl e
      | Inr w' \<Rightarrow> outer_walk ext cur (head # rest) w')"
| "outer_walk ext cur [tail] w = Inr w"
| "outer_walk ext cur [] w = Inr w"

definition deskew ::
  "externals \<Rightarrow> IMUProcessor \<Rightarrow> PointType list \<Rightarrow> fault + (PointType list \<times> Write list)" where
  \<comment> \<open>The second half of \<open>undistort\<close>. With an empty pose cache
      \<open>end() - 1\<close> is no entry.\<close>
  "deskew ext s pts =
     (let cur = kf_x (m_kf s);
          it_pcl = int (length pts) - 1
      in if m_imu_poses_cache s = [] then Inl IteratorOutOfRange
         else case outer_walk ext cur (rev (m_imu_poses_cache s)) (pts, it_pcl, []) of
                Inl e \<Rightarrow> Inl e
              | Inr w \<Rightarrow> Inr (fst w, snd (snd w)))"

text \<open>
  \<open>std::sort\<close> with the comparison \<open>p1.curvature < p2.curvature\<close> leaves the order of
  points of equal offset open; the model takes the stable order of \<^const>\<open>sort_key\<close>.
  The result is the processor, the package with the scan overwritten, and the ghost list of
  overwrites.
\<close>

definition undistort ::
  "externals \<Rightarrow> SyncPackage \<Rightarrow> IMUProcessor
     \<Rightarrow> fault + (IMUProcessor \<times> SyncPackage \<times> Write list)" where
  "undistort ext package s =
     (let pts = sort_key curvature (cloud package);
          s' = propagate ext package s
      in case deskew ext s' pts of
           Inl e \<Rightarrow> Inl e
         | Inr r \<Rightarrow> Inr (s', package\<lparr>cloud := fst r\<rparr>, snd r))"

definition process ::
  "externals \<Rightarrow> SyncPackage \<Rightarrow> IMUProcessor
     \<Rightarrow> fault + (IMUProcessor \<times> SyncPackage \<times> Write list)" where
  "process ext sync s =
     (if \<not> is_initialized s
      then (case initialize ext (imus sync) s of
              Inl e \<Rightarrow> Inl e
            | Inr r \<Rightarrow>
                (let s' = (snd r)\<lparr>is_initialized := fst r\<rparr>
                 in if is_initialized s' then undistort ext sync s'
                    else Inr (s', sync, [])))
      else undistort ext sync s)"

section \<open>Instances of the external operations\<close>

text \<open>
  The rotational exponential in closed form (Rodrigues), and the shortest-arc rotation
  between two unit vectors that are not opposite.
\<close>

definition so3_exp :: "vec3 \<Rightarrow> mat3" where
  "so3_exp w =
     (let th = vnorm w; K = skew w
      in if th = 0 then mat_id
         else mat_add mat_id
                (mat_add (mat_scale (sin th / th) K)
                         (mat_scale ((1 - cos th) / (th * th)) (mat_mul K K))))"

definition from_two_vectors :: "vec3 \<Rightarrow> vec3 \<Rightarrow> mat3" where
  "from_two_vectors a b =
     (let K = skew (cross a b)
      in mat_add mat_id (mat_add K (mat_scale (1 / (1 + dot a b)) (mat_mul K K))))"

definition initG_direct :: "vec3 \<Rightarrow> State \<Rightarrow> State" where
  \<comment> \<open>Modelled from the spec: \<open>kf::State::initG\<close> is not under src/. "Set gravity directly
      to the negated mean acceleration": the gravity becomes the argument.\<close>
  "initG_direct v x = x\<lparr>grav := v\<rparr>"

definition initG_scaled :: "real \<Rightarrow> vec3 \<Rightarrow> State \<Rightarrow> State" where
  \<comment> \<open>Modelled from the spec: \<open>kf::State::initG\<close> is not under src/. Gravity has a "fixed
      magnitude" and is "the canonical down vector scaled by standard gravity magnitude":
      the gravity becomes the direction of the argument scaled by the magnitude \<open>G\<close>.\<close>
  "initG_scaled G v x = x\<lparr>grav := smul G (normalized v)\<rparr>"

definition predict_kinematic :: predict_fn where
  \<comment> \<open>Modelled from the spec: \<open>kf::IESKF::predict\<close> is not under src/. "Attitude via
      rotational integration, velocity/position via kinematic integration"; biases, gravity
      and extrinsics stay; the covariance transition is the estimator's own and is left out.\<close>
  "predict_kinematic inp dt Q xP =
     (let x = fst xP;
          a = vadd (mat_vec (rot x) (vsub (inp_acc inp) (ba x))) (grav x)
      in (x\<lparr>rot := mat_mul (rot x) (so3_exp (smul dt (vsub (inp_gyro inp) (bg x)))),
             pos := vadd (pos x) (smul dt (vel x)),
             vel := vadd (vel x) (smul dt a)\<rparr>,
          snd xP))"

definition ext0 :: externals where
  "ext0 = \<lparr>predict = predict_kinematic, initG = initG_direct, SO3_exp = so3_exp,
           FromTwoVectors = from_two_vectors,
           Input_default = \<lparr>inp_acc = vzero, inp_gyro = vzero\<rparr>\<rparr>"

section \<open>Vocabulary of the statements\<close>

text \<open>
  The definitions of this section name what the statements below speak about: the pairs of
  the window, the midpoint input and the step duration, the compensation formula and the mean
  in the words of the specification, and the consistency of a list of overwrites. The theorems
  compare them with the functions above, which follow the source.
\<close>

definition consecutive :: "'a list \<Rightarrow> ('a \<times> 'a) list" where
  \<comment> \<open>The consecutive pairs of a sequence, in order: the pairs (head, tail) of the
      sample window and the intervals of the pose cache.\<close>
  "consecutive xs = zip xs (tl xs)"

definition executed :: "real \<Rightarrow> IMUData list \<Rightarrow> (IMUData \<times> IMUData) list" where
  \<comment> \<open>The pairs of the window that are integrated: those not skipped by the test
      against the last processed end time.\<close>
  "executed t_end w = filter (\<lambda>(head, tail). \<not> timestamp tail < t_end) (consecutive w)"

definition midpoint :: "IMUData \<Rightarrow> IMUData \<Rightarrow> Input" where
  \<comment> \<open>Midpoint input: the arithmetic mean of the two samples.\<close>
  "midpoint head tail =
     \<lparr>inp_acc = smul (1 / 2) (vadd (imu_acc head) (imu_acc tail)),
      inp_gyro = smul (1 / 2) (vadd (imu_gyro head) (imu_gyro tail))\<rparr>"

definition step_dt :: "real \<Rightarrow> IMUData \<Rightarrow> IMUData \<Rightarrow> real" where
  \<comment> \<open>The step duration, clipped to the unconsumed remainder.\<close>
  "step_dt t_end head tail = timestamp tail - max (timestamp head) t_end"

definition step_call :: "real \<Rightarrow> IMUData \<times> IMUData \<Rightarrow> Input \<times> real" where
  \<comment> \<open>The arguments of the prediction for one pair.\<close>
  "step_call t_end ht = (midpoint (fst ht) (snd ht), step_dt t_end (fst ht) (snd ht))"

definition trailing_input :: "externals \<Rightarrow> real \<Rightarrow> IMUData list \<Rightarrow> Input" where
  \<comment> \<open>The input of the trailing prediction: the last midpoint input, or the
      default-constructed input when no pair was integrated.\<close>
  "trailing_input ext t_end w =
     (case rev (executed t_end w) of
        [] \<Rightarrow> Input_default ext
      | (head, tail) # _ \<Rightarrow> midpoint head tail)"

definition deskewed_point ::
  "(vec3 \<Rightarrow> mat3) \<Rightarrow> mat3 \<Rightarrow> vec3 \<Rightarrow> mat3 \<Rightarrow> vec3 \<Rightarrow> Pose \<Rightarrow> Pose \<Rightarrow> PointType \<Rightarrow> PointType"
  where
  \<comment> \<open>The compensation in the words of the specification: \<open>R_pt\<close> and
      \<open>p_pt\<close> are the pose extrapolated to the instant of the point,
      \<open>(R_end, p_end)\<close> the end pose, \<open>(R_ext, t_ext)\<close> the extrinsic
      transform.\<close>
  "deskewed_point Exp R_end p_end R_ext t_ext head tail p =
     (let dt = curvature p / 1000 - offset head;
          R_pt = mat_mul (pose_rot head) (Exp (smul dt (pose_gyro tail)));
          p_pt = vadd (vadd (pose_pos head) (smul dt (pose_vel head)))
                      (smul (1 / 2 * dt ^ 2) (pose_acc tail));
          p' = mat_vec (transpose3 R_ext)
                 (vsub (mat_vec (transpose3 R_end)
                          (vsub (vadd (mat_vec R_pt
                                         (vadd (mat_vec R_ext (px p, py p, pz p)) t_ext))
                                      p_pt)
                                p_end))
                       t_ext)
      in \<lparr>px = fst p', py = fst (snd p'), pz = snd (snd p'), curvature = curvature p\<rparr>)"

text \<open>
  A list of overwrites is consistent with a scan when every overwrite is in range and its
  \<open>w_before\<close> is the point then stored at its index; replaying the overwrites gives the scan
  they lead to.
\<close>

fun trace_ok :: "PointType list \<Rightarrow> Write list \<Rightarrow> bool" where
  "trace_ok pts [] = True"
| "trace_ok pts (w # ws) =
     (w_index w < length pts \<and> w_before w = pts ! w_index w \<and>
      trace_ok (pts[w_index w := w_after w]) ws)"

definition replay :: "PointType list \<Rightarrow> Write list \<Rightarrow> PointType list" where
  "replay pts ws = foldl (\<lambda>ps w. ps[w_index w := w_after w]) pts ws"

definition written_in ::
  "externals \<Rightarrow> State \<Rightarrow> Pose \<Rightarrow> Pose \<Rightarrow> Write \<Rightarrow> bool" where
  \<comment> \<open>An overwrite made by the inner loop for the interval \<open>(head,
      tail)\<close>.\<close>
  "written_in ext cur head tail w \<longleftrightarrow>
     w_head w = head \<and> w_tail w = tail \<and>
     offset head < curvature (w_before w) / 1000 \<and>
     w_after w = compensate ext cur head tail (w_before w)"

definition vsum :: "vec3 list \<Rightarrow> vec3" where
  "vsum vs = foldl vadd vzero vs"

definition vmean :: "vec3 list \<Rightarrow> vec3" where
  \<comment> \<open>The arithmetic mean of a sequence of vectors.\<close>
  "vmean vs = vdivs (vsum vs) (real (length vs))"

definition seeded_state :: "externals \<Rightarrow> Config \<Rightarrow> vec3 \<Rightarrow> vec3 \<Rightarrow> State \<Rightarrow> State" where
  \<comment> \<open>The mean state written by a ready call of \<open>initialize\<close>, as a
      function of the two means.\<close>
  "seeded_state ext config acc_mean gyro_mean x =
     (if gravity_align config
      then initG ext (0, 0, - 1)
             (x\<lparr>rot_ext := r_il config, pos_ext := p_il config, bg := gyro_mean,
                 rot := FromTwoVectors ext (normalized (vneg acc_mean)) (0, 0, - 1)\<rparr>)
      else initG ext (vneg acc_mean)
             (x\<lparr>rot_ext := r_il config, pos_ext := p_il config, bg := gyro_mean\<rparr>))"

definition seeded_cov :: cov where
  \<comment> \<open>The covariance written by a ready call of \<open>initialize\<close>.\<close>
  "seeded_cov = set_block 21 2 (1 / 100000) (set_block 18 3 (1 / 10000)
                  (set_block 15 3 (1 / 10000) (set_block 9 3 (1 / 100000)
                    (set_block 6 3 (1 / 100000) cov_identity))))"

section \<open>Example inputs\<close>

text \<open>
  A platform moving with velocity \<open>(1, 0, 0)\<close>, no rotation, no gravity, identity extrinsics;
  inertial samples with zero acceleration and zero angular velocity at given times.
\<close>

definition imu_at :: "real \<Rightarrow> IMUData" where
  "imu_at t = \<lparr>timestamp = t, imu_acc = vzero, imu_gyro = vzero\<rparr>"

definition x0 :: State where
  "x0 = \<lparr>rot = mat_id, pos = vzero, vel = (1, 0, 0), bg = vzero, ba = vzero, grav = vzero,
         rot_ext = mat_id, pos_ext = vzero\<rparr>"

definition kf0 :: IESKF where
  "kf0 = \<lparr>kf_x = x0, kf_P = cov_identity, predict_calls = []\<rparr>"

definition config0 :: Config where
  "config0 = \<lparr>ng = 1 / 100, na = 1 / 100, nbg = 1 / 10000, nba = 1 / 10000,
              imu_init_num = 2, gravity_align = False, r_il = mat_id, p_il = vzero\<rparr>"

definition proc0 :: IMUProcessor where
  "proc0 = IMUProcessor_new config0 kf0 (imu_at 0) 0"

definition pose_at :: "real \<Rightarrow> Pose" where
  "pose_at t = \<lparr>offset = t, pose_acc = (0, 0, 0), pose_gyro = (0, 0, 0), pose_vel = (1, 0, 0),
               pose_pos = (t, 0, 0), pose_rot = mat_id\<rparr>"

definition point_at :: "real \<Rightarrow> real \<Rightarrow> PointType" where
  "point_at x c = \<lparr>px = x, py = 0, pz = 0, curvature = c\<rparr>"

definition pkg_overlap :: SyncPackage where
  "pkg_overlap = \<lparr>imus = [imu_at (1 / 4), imu_at 1, imu_at 2],
                  cloud = [\<lparr>px = 1, py = 2, pz = 3, curvature = 3000\<rparr>],
                  cloud_start_time = 0, cloud_end_time = 5\<rparr>"

definition pkg_late :: SyncPackage where
  "pkg_late = \<lparr>imus = [imu_at 1, imu_at 2, imu_at 3],
               cloud = [\<lparr>px = 1, py = 2, pz = 3, curvature = 500\<rparr>],
               cloud_start_time = 2, cloud_end_time = 3\<rparr>"

definition pkg_two :: SyncPackage where
  "pkg_two = \<lparr>imus = [imu_at 1, imu_at 2],
              cloud = [\<lparr>px = 10, py = 0, pz = 0, curvature = 2500\<rparr>,
                       \<lparr>px = 20, py = 0, pz = 0, curvature = 1500\<rparr>],
              cloud_start_time = 0, cloud_end_time = 3\<rparr>"

definition pkg_three :: SyncPackage where
  "pkg_three = \<lparr>imus = [imu_at 1, imu_at 2],
              cloud = [\<lparr>px = 10, py = 0, pz = 0, curvature = 2500\<rparr>,
                       \<lparr>px = 30, py = 0, pz = 0, curvature = 0\<rparr>,
                       \<lparr>px = 20, py = 0, pz = 0, curvature = 1500\<rparr>],
              cloud_start_time = 0, cloud_end_time = 3\<rparr>"

definition writes_two :: "Write list" where
  "writes_two =
     [\<lparr>w_index = 1, w_head = pose_at 1, w_tail = pose_at 2,
       w_before = point_at 10 2500, w_after = point_at (19 / 2) 2500\<rparr>,
      \<lparr>w_index = 0, w_head = pose_at 1, w_tail = pose_at 2,
       w_before = point_at 20 1500, w_after = point_at (37 / 2) 1500\<rparr>,
      \<lparr>w_index = 0, w_head = pose_at 0, w_tail = pose_at 1,
       w_before = point_at (37 / 2) 1500, w_after = point_at 17 1500\<rparr>]"

definition pkg_idle :: SyncPackage where
  "pkg_idle = \<lparr>imus = [], cloud = [], cloud_start_time = 0, cloud_end_time = 1\<rparr>"

definition pkg_empty_scan :: SyncPackage where
  "pkg_empty_scan = \<lparr>imus = [imu_at 1], cloud = [], cloud_start_time = 0, cloud_end_time = 1\<rparr>"

definition stationary_imus :: "IMUData list" where
  "stationary_imus =
     [\<lparr>timestamp = 1, imu_acc = (0, 0, - (981 / 100)), imu_gyro = (0, 0, 0)\<rparr>,
      \<lparr>timestamp = 2, imu_acc = (0, 0, - (981 / 100)), imu_gyro = (0, 0, 0)\<rparr>]"

definition proc_seeded :: "(vec3 \<Rightarrow> State \<Rightarrow> State) \<Rightarrow> IMUProcessor" where
  "proc_seeded G =
     proc0\<lparr>m_imu_cache := stationary_imus,
           m_kf := kf0\<lparr>kf_x := G (0, 0, 981 / 100) (x0\<lparr>bg := (0, 0, 0)\<rparr>), kf_P := seeded_cov\<rparr>,
           m_last_imu := \<lparr>timestamp = 2, imu_acc = (0, 0, - (981 / 100)),
                           imu_gyro = (0, 0, 0)\<rparr>\<rparr>"

definition proc_zero :: IMUProcessor where
  \<comment> \<open>A fresh processor configured with the threshold 0.\<close>
  "proc_zero = IMUProcessor_new (config0\<lparr>imu_init_num := 0\<rparr>) kf0 (imu_at 0) 0"

section \<open>Evaluation on the example inputs\<close>

lemmas ex_defs = imu_at_def x0_def kf0_def config0_def proc0_def pkg_overlap_def pkg_late_def
  IMUProcessor_new_def ext0_def vzero_def mat_id_def

lemmas eval_defs = undistort_def deskew_def propagate_def integrate_step_def kf_predict_def
  predict_kinematic_def compensate_def Let_def inner_walk.simps

lemma so3_exp_zero [simp]: "so3_exp (0, 0, 0) = mat_id"
  by (simp add: so3_exp_def vnorm_def)

section \<open>Propagation\<close>

lemma executed_simps:
  "executed e [] = []" "executed e [h] = []"
  "executed e (h # t # rest) =
     (if timestamp t < e then executed e (t # rest) else (h, t) # executed e (t # rest))"
  by (simp_all add: executed_def consecutive_def)

lemma integrate_step_skip:
  "timestamp t < m_last_end_time (fst st) \<Longrightarrow> integrate_step ext t0 h t st = st"
  by (simp add: integrate_step_def)

lemma integrate_step_frame:
  "m_last_end_time (fst (integrate_step ext t0 h t st)) = m_last_end_time (fst st)"
  "m_Q (fst (integrate_step ext t0 h t st)) = m_Q (fst st)"
  "m_imu_cache (fst (integrate_step ext t0 h t st)) = m_imu_cache (fst st)"
  "m_last_imu (fst (integrate_step ext t0 h t st)) = m_last_imu (fst st)"
  "m_config (fst (integrate_step ext t0 h t st)) = m_config (fst st)"
  "is_initialized (fst (integrate_step ext t0 h t st)) = is_initialized (fst st)"
  by (simp_all add: integrate_step_def Let_def)

lemma integrate_step_exec_calls:
  "\<not> timestamp t < m_last_end_time (fst st) \<Longrightarrow>
   predict_calls (m_kf (fst (integrate_step ext t0 h t st))) =
     predict_calls (m_kf (fst st)) @ [step_call (m_last_end_time (fst st)) (h, t)]"
  by (simp add: integrate_step_def Let_def kf_predict_def step_call_def midpoint_def
      step_dt_def max_def)

lemma integrate_step_exec_inp:
  "\<not> timestamp t < m_last_end_time (fst st) \<Longrightarrow>
   snd (integrate_step ext t0 h t st) = midpoint h t"
  by (simp add: integrate_step_def Let_def midpoint_def)

lemma integrate_step_exec_cache:
  "\<not> timestamp t < m_last_end_time (fst st) \<Longrightarrow>
   \<exists>e. m_imu_poses_cache (fst (integrate_step ext t0 h t st)) = m_imu_poses_cache (fst st) @ [e]
       \<and> offset e = timestamp t - t0"
  by (simp add: integrate_step_def Let_def)

lemma integrate_loop_frame:
  "m_last_end_time (fst (integrate_loop ext t0 w st)) = m_last_end_time (fst st)"
  "m_Q (fst (integrate_loop ext t0 w st)) = m_Q (fst st)"
  "m_imu_cache (fst (integrate_loop ext t0 w st)) = m_imu_cache (fst st)"
  "m_last_imu (fst (integrate_loop ext t0 w st)) = m_last_imu (fst st)"
  "m_config (fst (integrate_loop ext t0 w st)) = m_config (fst st)"
  "is_initialized (fst (integrate_loop ext t0 w st)) = is_initialized (fst st)"
  by (induction ext t0 w st rule: integrate_loop.induct) (simp_all add: integrate_step_frame)

lemma integrate_loop_calls:
  "predict_calls (m_kf (fst (integrate_loop ext t0 w st))) =
     predict_calls (m_kf (fst st)) @
       map (step_call (m_last_end_time (fst st))) (executed (m_last_end_time (fst st)) w)"
proof (induction ext t0 w st rule: integrate_loop.induct)
  case (1 ext t0 head tail rest st)
  show ?case
  proof (cases "timestamp tail < m_last_end_time (fst st)")
    case True
    with 1 show ?thesis by (simp add: executed_simps integrate_step_skip)
  next
    case False
    with 1 show ?thesis
      by (simp add: executed_simps integrate_step_frame integrate_step_exec_calls)
  qed
qed (simp_all add: executed_simps)

lemma integrate_loop_cache:
  "\<exists>es. m_imu_poses_cache (fst (integrate_loop ext t0 w st)) = m_imu_poses_cache (fst st) @ es
        \<and> map offset es =
            map (\<lambda>(head, tail). timestamp tail - t0) (executed (m_last_end_time (fst st)) w)"
proof (induction ext t0 w st rule: integrate_loop.induct)
  case (1 ext t0 head tail rest st)
  show ?case
  proof (cases "timestamp tail < m_last_end_time (fst st)")
    case True
    with 1 show ?thesis
      by (simp add: executed_simps integrate_step_skip)
  next
    case False
    from integrate_step_exec_cache [OF False, of ext t0 head]
    obtain e where e: "m_imu_poses_cache (fst (integrate_step ext t0 head tail st)) =
        m_imu_poses_cache (fst st) @ [e]" "offset e = timestamp tail - t0"
      by blast
    from 1 obtain es where es:
      "m_imu_poses_cache (fst (integrate_loop ext t0 (tail # rest)
          (integrate_step ext t0 head tail st))) =
        m_imu_poses_cache (fst (integrate_step ext t0 head tail st)) @ es"
      "map offset es = map (\<lambda>(head, tail). timestamp tail - t0)
          (executed (m_last_end_time (fst st)) (tail # rest))"
      by (auto simp: integrate_step_frame)
    have "m_imu_poses_cache (fst (integrate_loop ext t0 (head # tail # rest) st)) =
        m_imu_poses_cache (fst st) @ (e # es)"
      using e es by simp
    moreover have "map offset (e # es) = map (\<lambda>(head, tail). timestamp tail - t0)
          (executed (m_last_end_time (fst st)) (head # tail # rest))"
      using e es False by (simp add: executed_simps)
    ultimately show ?thesis by blast
  qed
qed (simp_all add: executed_simps)

lemma integrate_loop_inp:
  "snd (integrate_loop ext t0 w st) =
     (case rev (executed (m_last_end_time (fst st)) w) of
        [] \<Rightarrow> snd st
      | (head, tail) # _ \<Rightarrow> midpoint head tail)"
proof (induction ext t0 w st rule: integrate_loop.induct)
  case (1 ext t0 head tail rest st)
  show ?case
  proof (cases "timestamp tail < m_last_end_time (fst st)")
    case True
    with 1 show ?thesis
      by (simp add: executed_simps integrate_step_skip cong: list.case_cong)
  next
    case False
    with 1 show ?thesis
      by (simp add: executed_simps integrate_step_frame integrate_step_exec_inp
            split: list.splits)
  qed
qed (simp_all add: executed_simps)

lemma propagate_calls:
  "predict_calls (m_kf (propagate ext package s)) =
     predict_calls (m_kf s) @
       map (step_call (m_last_end_time s)) (executed (m_last_end_time s) (m_last_imu s # imus package)) @
       [(trailing_input ext (m_last_end_time s) (m_last_imu s # imus package),
         cloud_end_time package - timestamp (last (m_last_imu s # imus package)))]"
  by (simp add: propagate_def Let_def kf_predict_def integrate_loop_calls integrate_loop_inp
        trailing_input_def del: integrate_loop.simps cong: list.case_cong)

lemma propagate_cache:
  "\<exists>es. m_imu_poses_cache (propagate ext package s) =
           \<lparr>offset = 0, pose_acc = m_last_acc s, pose_gyro = m_last_gyro s,
            pose_vel = vel (kf_x (m_kf s)), pose_pos = pos (kf_x (m_kf s)),
            pose_rot = rot (kf_x (m_kf s))\<rparr> # es
        \<and> map offset es =
            map (\<lambda>(head, tail). timestamp tail - cloud_start_time package)
              (executed (m_last_end_time s) (m_last_imu s # imus package))"
  using integrate_loop_cache [of ext "cloud_start_time package" "m_last_imu s # imus package"
      "(s\<lparr>m_imu_cache := m_last_imu s # imus package,
          m_imu_poses_cache :=
            [\<lparr>offset = 0, pose_acc = m_last_acc s, pose_gyro = m_last_gyro s,
              pose_vel = vel (kf_x (m_kf s)), pose_pos = pos (kf_x (m_kf s)),
              pose_rot = rot (kf_x (m_kf s))\<rparr>]\<rparr>, Input_default ext)"]
  by (auto simp: propagate_def Let_def simp del: integrate_loop.simps)

lemma propagate_cache_length:
  "length (m_imu_poses_cache (propagate ext package s)) =
     Suc (length (executed (m_last_end_time s) (m_last_imu s # imus package)))"
  using propagate_cache [of ext package s] by (metis length_Cons length_map)

lemma propagate_cloud_irrelevant:
  "propagate ext (package\<lparr>cloud := c\<rparr>) s = propagate ext package s"
  by (simp add: propagate_def)

lemma consecutive_increasing:
  "sorted_wrt (<) (map timestamp w) \<Longrightarrow> (h, t) \<in> set (consecutive w) \<Longrightarrow>
   timestamp h < timestamp t"
proof (induction w rule: induct_list012)
  case (3 a b rest)
  then show ?case by (auto simp: consecutive_def)
qed (simp_all add: consecutive_def)

lemma step_dt_nonneg:
  "timestamp h < timestamp t \<Longrightarrow> \<not> timestamp t < e \<Longrightarrow> 0 \<le> step_dt e h t"
  by (simp add: step_dt_def max_def)

lemma executed_tails:
  "map snd (executed e (a # w)) = filter (\<lambda>t. \<not> timestamp t < e) w"
  by (induction w arbitrary: a) (simp_all add: executed_simps)

lemma executed_offsets_sorted:
  assumes "sorted (map timestamp (a # w))"
    and "\<forall>t\<in>set w. \<not> timestamp t < e \<longrightarrow> t0 \<le> timestamp t"
  shows "sorted (0 # map (\<lambda>(head, tail). timestamp tail - t0) (executed e (a # w)))"
proof -
  have eq: "map (\<lambda>(head, tail). timestamp tail - t0) (executed e (a # w)) =
      map (\<lambda>t. timestamp t - t0) (filter (\<lambda>t. \<not> timestamp t < e) w)"
  proof -
    have "map (\<lambda>(head, tail). timestamp tail - t0) (executed e (a # w)) =
        map (\<lambda>t. timestamp t - t0) (map snd (executed e (a # w)))"
      by (simp add: case_prod_unfold comp_def)
    then show ?thesis by (simp only: executed_tails)
  qed
  have "sorted (map timestamp w)" using assms(1) by simp
  then have "sorted (map (\<lambda>t. timestamp t - t0) (filter (\<lambda>t. \<not> timestamp t < e) w))"
    by (induction w) (auto)
  moreover have "\<forall>x\<in>set (map (\<lambda>t. timestamp t - t0) (filter (\<lambda>t. \<not> timestamp t < e) w)). 0 \<le> x"
    using assms(2) by auto
  ultimately show ?thesis unfolding eq by simp
qed

lemma propagate_pkg_two_cache:
  "m_imu_poses_cache (propagate ext0 pkg_two proc0) = [pose_at 0, pose_at 1, pose_at 2]"
  by (simp add: ex_defs pkg_two_def pose_at_def propagate_def integrate_step_def kf_predict_def
      predict_kinematic_def Let_def)

lemma propagate_pkg_three_cache:
  "m_imu_poses_cache (propagate ext0 pkg_three proc0) = [pose_at 0, pose_at 1, pose_at 2]"
  by (simp add: ex_defs pkg_three_def pose_at_def propagate_def integrate_step_def kf_predict_def
      predict_kinematic_def Let_def)

text \<open>
  C2. For every consecutive pair (head, tail) of the working window (the anchor followed by
  the samples of the batch, in order) the propagator calls the estimator's prediction exactly
  when the timestamp of tail is at least the last processed end time, with the midpoint of the
  two samples as input and with step duration the timestamp of tail minus the maximum of the
  timestamp of head and the last processed end time. The calls are made in window order and
  are followed by the one trailing call.
\<close>

theorem propagate_predict_calls:
  "predict_calls (m_kf (propagate ext package s)) =
     predict_calls (m_kf s) @
     map (\<lambda>(head, tail). (midpoint head tail, step_dt (m_last_end_time s) head tail))
       (filter (\<lambda>(head, tail). m_last_end_time s \<le> timestamp tail)
          (consecutive (m_last_imu s # imus package))) @
     [(trailing_input ext (m_last_end_time s) (m_last_imu s # imus package),
       cloud_end_time package - timestamp (last (m_last_imu s # imus package)))]"
  unfolding propagate_calls executed_def
  by (simp add: step_call_def case_prod_unfold not_less)

theorem propagate_predict_calls_witness:
  "predict_calls (m_kf (propagate ext0 pkg_overlap (proc0\<lparr>m_last_end_time := 1 / 2\<rparr>))) =
     [(\<lparr>inp_acc = (0, 0, 0), inp_gyro = (0, 0, 0)\<rparr>, 1 / 2),
      (\<lparr>inp_acc = (0, 0, 0), inp_gyro = (0, 0, 0)\<rparr>, 1),
      (\<lparr>inp_acc = (0, 0, 0), inp_gyro = (0, 0, 0)\<rparr>, 3)]"
  using propagate_predict_calls [of ext0 pkg_overlap "proc0\<lparr>m_last_end_time := 1 / 2\<rparr>"]
  by (simp add: ex_defs consecutive_def midpoint_def step_dt_def trailing_input_def executed_def)

text \<open>
  C5. When the timestamps of the working window are strictly increasing and the scan's end
  time is not before the last sample of the window, every step duration passed to the
  prediction during one propagation is nonnegative: those of the loop and that of the trailing
  call, which is the scan's end time minus the timestamp of the last sample of the window.
\<close>

theorem predict_dt_nonnegative:
  assumes "sorted_wrt (<) (map timestamp (m_last_imu s # imus package))"
    and "timestamp (last (m_last_imu s # imus package)) \<le> cloud_end_time package"
  shows "\<exists>new. predict_calls (m_kf (propagate ext package s)) = predict_calls (m_kf s) @ new
            \<and> length new = Suc (length (executed (m_last_end_time s) (m_last_imu s # imus package)))
            \<and> snd (last new) =
                cloud_end_time package - timestamp (last (m_last_imu s # imus package))
            \<and> (\<forall>c\<in>set new. 0 \<le> snd c)"
proof -
  let ?w = "m_last_imu s # imus package"
  let ?e = "m_last_end_time s"
  let ?new = "map (step_call ?e) (executed ?e ?w) @
       [(trailing_input ext ?e ?w, cloud_end_time package - timestamp (last ?w))]"
  have "\<forall>p\<in>set (executed ?e ?w). 0 \<le> snd (step_call ?e p)"
  proof
    fix p assume p: "p \<in> set (executed ?e ?w)"
    then have "(fst p, snd p) \<in> set (consecutive ?w)" "\<not> timestamp (snd p) < ?e"
      by (auto simp: executed_def)
    with assms(1) show "0 \<le> snd (step_call ?e p)"
      using consecutive_increasing [of ?w "fst p" "snd p"]
      by (simp add: step_call_def step_dt_nonneg)
  qed
  then have "\<forall>c\<in>set ?new. 0 \<le> snd c" using assms(2) by auto
  moreover have "predict_calls (m_kf (propagate ext package s)) = predict_calls (m_kf s) @ ?new"
    by (simp add: propagate_calls)
  moreover have "length ?new = Suc (length (executed ?e ?w))" by simp
  moreover have "snd (last ?new) = cloud_end_time package - timestamp (last ?w)" by simp
  ultimately show ?thesis by blast
qed

theorem predict_dt_nonnegative_witness:
  "sorted_wrt (<) (map timestamp (m_last_imu proc0 # imus pkg_overlap)) \<and>
   timestamp (last (m_last_imu proc0 # imus pkg_overlap)) \<le> cloud_end_time pkg_overlap \<and>
   (\<exists>new. predict_calls (m_kf (propagate ext0 pkg_overlap proc0)) =
             predict_calls (m_kf proc0) @ new
        \<and> length new = Suc (length (executed (m_last_end_time proc0)
                                      (m_last_imu proc0 # imus pkg_overlap)))
        \<and> snd (last new) = cloud_end_time pkg_overlap
                           - timestamp (last (m_last_imu proc0 # imus pkg_overlap))
        \<and> (\<forall>c\<in>set new. 0 \<le> snd c))"
proof -
  have h1: "sorted_wrt (<) (map timestamp (m_last_imu proc0 # imus pkg_overlap))"
    by (simp add: ex_defs)
  have h2: "timestamp (last (m_last_imu proc0 # imus pkg_overlap)) \<le> cloud_end_time pkg_overlap"
    by (simp add: ex_defs)
  show ?thesis using h1 h2 predict_dt_nonnegative [OF h1 h2, of ext0] by blast
qed

text \<open>
  C6, as amended. After every propagation the pose cache is non-empty; its first entry has
  offset 0 and carries the corrected measurements and the velocity, position and rotation the
  processor and the estimator held when the call began; after it comes exactly one entry per
  integrated pair, in window order, with offset the timestamp of tail minus the scan's start
  time; the trailing prediction adds no entry. The offsets are ascending when the timestamps
  of the window are ascending and no integrated sample lies before the scan's start time.
\<close>

theorem pose_cache_after_propagate:
  "\<exists>es. m_imu_poses_cache (propagate ext package s) =
           \<lparr>offset = 0, pose_acc = m_last_acc s, pose_gyro = m_last_gyro s,
            pose_vel = vel (kf_x (m_kf s)), pose_pos = pos (kf_x (m_kf s)),
            pose_rot = rot (kf_x (m_kf s))\<rparr> # es
       \<and> map offset es =
           map (\<lambda>(head, tail). timestamp tail - cloud_start_time package)
             (filter (\<lambda>(head, tail). m_last_end_time s \<le> timestamp tail)
                (consecutive (m_last_imu s # imus package)))
       \<and> (sorted (map timestamp (m_last_imu s # imus package)) \<and>
          (\<forall>t\<in>set (imus package).
              m_last_end_time s \<le> timestamp t \<longrightarrow> cloud_start_time package \<le> timestamp t)
          \<longrightarrow> sorted (map offset (m_imu_poses_cache (propagate ext package s))))"
proof -
  from propagate_cache [of ext package s] obtain es where
    es: "m_imu_poses_cache (propagate ext package s) =
           \<lparr>offset = 0, pose_acc = m_last_acc s, pose_gyro = m_last_gyro s,
            pose_vel = vel (kf_x (m_kf s)), pose_pos = pos (kf_x (m_kf s)),
            pose_rot = rot (kf_x (m_kf s))\<rparr> # es"
     "map offset es = map (\<lambda>(head, tail). timestamp tail - cloud_start_time package)
              (executed (m_last_end_time s) (m_last_imu s # imus package))"
    by blast
  have ex: "executed (m_last_end_time s) (m_last_imu s # imus package) =
      filter (\<lambda>(head, tail). m_last_end_time s \<le> timestamp tail)
                (consecutive (m_last_imu s # imus package))"
    by (simp add: executed_def case_prod_unfold not_less)
  have "sorted (map offset (m_imu_poses_cache (propagate ext package s)))"
    if "sorted (map timestamp (m_last_imu s # imus package))"
      and "\<forall>t\<in>set (imus package).
              m_last_end_time s \<le> timestamp t \<longrightarrow> cloud_start_time package \<le> timestamp t"
    using executed_offsets_sorted [of "m_last_imu s" "imus package" "m_last_end_time s"
        "cloud_start_time package"] that es
    by (simp add: not_less)
  with es ex show ?thesis by metis
qed

theorem pose_cache_after_propagate_witness:
  "sorted (map timestamp (m_last_imu proc0 # imus pkg_two)) \<and>
   map timestamp (imus pkg_two) = [1, 2] \<and>
   m_last_end_time proc0 = 0 \<and> cloud_start_time pkg_two = 0 \<and>
   map offset (m_imu_poses_cache (propagate ext0 pkg_two proc0)) = [0, 1, 2] \<and>
   sorted (map offset (m_imu_poses_cache (propagate ext0 pkg_two proc0)))"
proof -
  have h1: "sorted (map timestamp (m_last_imu proc0 # imus pkg_two))"
    by (simp add: ex_defs pkg_two_def)
  have h2: "\<forall>t\<in>set (imus pkg_two).
      m_last_end_time proc0 \<le> timestamp t \<longrightarrow> cloud_start_time pkg_two \<le> timestamp t"
    by (simp add: ex_defs pkg_two_def)
  have e: "map (\<lambda>(head, tail). timestamp tail - cloud_start_time pkg_two)
             (filter (\<lambda>(head, tail). m_last_end_time proc0 \<le> timestamp tail)
                (consecutive (m_last_imu proc0 # imus pkg_two))) = [1, 2]"
    by (simp add: ex_defs pkg_two_def consecutive_def)
  have v: "map timestamp (imus pkg_two) = [1, 2]" "m_last_end_time proc0 = 0"
    "cloud_start_time pkg_two = 0"
    by (simp_all add: ex_defs pkg_two_def)
  from pose_cache_after_propagate [of ext0 pkg_two proc0] h1 h2 e
  have "map offset (m_imu_poses_cache (propagate ext0 pkg_two proc0)) = [0, 1, 2] \<and>
      sorted (map offset (m_imu_poses_cache (propagate ext0 pkg_two proc0)))"
    by auto
  with h1 v show ?thesis by blast
qed

text \<open>
  C6, as stated, fails: with samples at times 1, 2, 3 and a scan that starts at time 2, the
  offsets of the pose cache are 0, -1, 0, 1.
\<close>

theorem pose_cache_not_ascending:
  "\<not> sorted (map offset (m_imu_poses_cache (propagate ext0 pkg_late proc0)))"
  by (simp add: ex_defs propagate_def integrate_step_def kf_predict_def predict_kinematic_def Let_def)

section \<open>Motion compensation\<close>

lemma compensate_curvature [simp]:
  "curvature (compensate ext cur h t p) = curvature p"
  by (simp add: compensate_def Let_def)

lemma replay_simps [simp]:
  "replay pts [] = pts"
  "replay pts (w # ws) = replay (pts[w_index w := w_after w]) ws"
  by (simp_all add: replay_def)

lemma map_curvature_update:
  "i < length pts \<Longrightarrow> curvature q = curvature (pts ! i) \<Longrightarrow>
   map curvature (pts[i := q]) = map curvature pts"
  by (simp add: map_update list_update_same_conv)

lemma inner_walk_fault:
  "it_pcl < 0 \<or> int (length pts) \<le> it_pcl \<Longrightarrow>
   inner_walk ext cur head tail pts it_pcl ws = Inl IteratorOutOfRange"
  by (subst inner_walk.simps) simp

lemma inner_walk_stop:
  "0 \<le> it_pcl \<Longrightarrow> it_pcl < int (length pts) \<Longrightarrow>
   \<not> curvature (pts ! nat it_pcl) / 1000 > offset head \<Longrightarrow>
   inner_walk ext cur head tail pts it_pcl ws = Inr (pts, it_pcl, ws)"
  by (subst inner_walk.simps) simp

lemma inner_walk_first:
  "pts \<noteq> [] \<Longrightarrow> curvature (pts ! 0) / 1000 > offset head \<Longrightarrow>
   inner_walk ext cur head tail pts 0 ws =
     Inr (pts[0 := compensate ext cur head tail (pts ! 0)], 0,
          ws @ [\<lparr>w_index = 0, w_head = head, w_tail = tail, w_before = pts ! 0,
                  w_after = compensate ext cur head tail (pts ! 0)\<rparr>])"
  by (subst inner_walk.simps) simp

lemma inner_walk_step:
  "0 < it_pcl \<Longrightarrow> it_pcl < int (length pts) \<Longrightarrow>
   curvature (pts ! nat it_pcl) / 1000 > offset head \<Longrightarrow>
   inner_walk ext cur head tail pts it_pcl ws =
     inner_walk ext cur head tail
       (pts[nat it_pcl := compensate ext cur head tail (pts ! nat it_pcl)]) (it_pcl - 1)
       (ws @ [\<lparr>w_index = nat it_pcl, w_head = head, w_tail = tail,
                w_before = pts ! nat it_pcl,
                w_after = compensate ext cur head tail (pts ! nat it_pcl)\<rparr>])"
  by (subst inner_walk.simps) simp

lemma inner_walk_result:
  assumes "0 \<le> i" and "i < int (length pts)"
  shows "\<exists>pts' i' new.
           inner_walk ext cur h t pts i ws = Inr (pts', i', ws @ new) \<and>
           0 \<le> i' \<and> i' \<le> i \<and>
           map curvature pts' = map curvature pts \<and>
           trace_ok pts new \<and> replay pts new = pts' \<and>
           (\<forall>w\<in>set new. written_in ext cur h t w \<and> w_index w < length pts \<and>
                         curvature (w_before w) = curvature (pts ! w_index w))"
  using assms
proof (induction ext cur h t pts i ws rule: inner_walk.induct)
  case (1 ext cur head tail pts it_pcl ws)
  let ?i = "nat it_pcl"
  let ?q = "compensate ext cur head tail (pts ! ?i)"
  let ?w = "\<lparr>w_index = ?i, w_head = head, w_tail = tail, w_before = pts ! ?i, w_after = ?q\<rparr>"
  have i: "?i < length pts" using "1.prems" by simp
  show ?case
  proof (cases "curvature (pts ! ?i) / 1000 > offset head")
    case False
    with "1.prems" have "inner_walk ext cur head tail pts it_pcl ws = Inr (pts, it_pcl, ws @ [])"
      by (simp add: inner_walk_stop)
    then show ?thesis using "1.prems" by (intro exI [of _ pts] exI [of _ it_pcl] exI [of _ "[]"]) simp
  next
    case True
    have w: "written_in ext cur head tail ?w" using True by (simp add: written_in_def)
    have cq: "map curvature (pts[?i := ?q]) = map curvature pts"
      using i by (simp add: map_curvature_update)
    show ?thesis
    proof (cases "it_pcl = 0")
      case z: True
      have "inner_walk ext cur head tail pts it_pcl ws = Inr (pts[?i := ?q], it_pcl, ws @ [?w])"
        using True z "1.prems" inner_walk_first [of pts head ext cur tail ws] by auto
      moreover have "trace_ok pts [?w]" using i by simp
      moreover have "replay pts [?w] = pts[?i := ?q]" by simp
      ultimately show ?thesis using w cq i "1.prems"
        by (intro exI [of _ "pts[?i := ?q]"] exI [of _ it_pcl] exI [of _ "[?w]"]) simp
    next
      case nz: False
      have step: "inner_walk ext cur head tail pts it_pcl ws =
          inner_walk ext cur head tail (pts[?i := ?q]) (it_pcl - 1) (ws @ [?w])"
        using True nz "1.prems" by (simp add: inner_walk_step)
      have "0 \<le> it_pcl - 1" "it_pcl - 1 < int (length (pts[?i := ?q]))"
        using nz "1.prems" by simp_all
      with "1.IH" [OF _ True nz] "1.prems" obtain pts' i' new where r:
        "inner_walk ext cur head tail (pts[?i := ?q]) (it_pcl - 1) (ws @ [?w]) =
           Inr (pts', i', (ws @ [?w]) @ new)"
        "0 \<le> i'" "i' \<le> it_pcl - 1"
        "map curvature pts' = map curvature (pts[?i := ?q])"
        "trace_ok (pts[?i := ?q]) new" "replay (pts[?i := ?q]) new = pts'"
        "\<forall>w\<in>set new. written_in ext cur head tail w \<and> w_index w < length (pts[?i := ?q]) \<and>
            curvature (w_before w) = curvature ((pts[?i := ?q]) ! w_index w)"
        by (metis (no_types, lifting) not_less)
      have cur_eq: "curvature ((pts[?i := ?q]) ! k) = curvature (pts ! k)" for k
        using i by (cases "k = ?i") simp_all
      have "inner_walk ext cur head tail pts it_pcl ws = Inr (pts', i', ws @ (?w # new))"
        using step r(1) by simp
      moreover have "trace_ok pts (?w # new)" using i r(5) by simp
      moreover have "replay pts (?w # new) = pts'" using r(6) by simp
      moreover have "\<forall>w\<in>set (?w # new). written_in ext cur head tail w \<and>
            w_index w < length pts \<and> curvature (w_before w) = curvature (pts ! w_index w)"
        using w r(7) cur_eq i by simp
      ultimately show ?thesis using r(2,3,4) cq
        by (intro exI [of _ pts'] exI [of _ i'] exI [of _ "?w # new"]) simp
    qed
  qed
qed

lemma consecutive_simps [simp]:
  "consecutive [] = []" "consecutive [a] = []"
  "consecutive (a # b # r) = (a, b) # consecutive (b # r)"
  by (simp_all add: consecutive_def)

lemma consecutive_snoc:
  "consecutive (ys @ [x]) = (if ys = [] then [] else consecutive ys @ [(last ys, x)])"
  by (induction ys rule: induct_list012) (simp_all add: consecutive_def)

lemma consecutive_Cons:
  "consecutive (x # xs) = (if xs = [] then [] else (x, hd xs) # consecutive xs)"
  by (cases xs) (simp_all add: consecutive_def)

lemma set_consecutive_rev:
  "set (consecutive (rev xs)) = (\<lambda>(a, b). (b, a)) ` set (consecutive xs)"
  by (induction xs) (auto simp: consecutive_snoc consecutive_Cons last_rev)

lemma trace_ok_append:
  "trace_ok pts (a @ b) \<longleftrightarrow> trace_ok pts a \<and> trace_ok (replay pts a) b"
  by (induction a arbitrary: pts) simp_all

lemma replay_append: "replay pts (a @ b) = replay (replay pts a) b"
  by (simp add: replay_def)

lemma length_replay [simp]: "length (replay pts ws) = length pts"
  by (induction ws arbitrary: pts) simp_all

lemma replay_untouched:
  "j \<notin> w_index ` set ws \<Longrightarrow> replay pts ws ! j = pts ! j"
  by (induction ws arbitrary: pts) simp_all

lemma outer_walk_result:
  assumes "0 \<le> i" and "i < int (length pts)"
  shows "\<exists>pts' i' new.
           outer_walk ext cur rc (pts, i, ws) = Inr (pts', i', ws @ new) \<and>
           0 \<le> i' \<and> i' \<le> i \<and>
           map curvature pts' = map curvature pts \<and>
           trace_ok pts new \<and> replay pts new = pts' \<and>
           (\<forall>w\<in>set new. (\<exists>head tail. (tail, head) \<in> set (consecutive rc) \<and>
                                      written_in ext cur head tail w) \<and>
                         w_index w < length pts \<and>
                         curvature (w_before w) = curvature (pts ! w_index w))"
  using assms
proof (induction rc arbitrary: pts i ws rule: induct_list012)
  case 1
  then show ?case by (intro exI [of _ pts] exI [of _ i] exI [of _ "[]"]) simp
next
  case (2 tail)
  then show ?case by (intro exI [of _ pts] exI [of _ i] exI [of _ "[]"]) simp
next
  case (3 tail head rest)
  from inner_walk_result [OF "3.prems", of ext cur head tail ws]
  obtain pts1 i1 new1 where a:
    "inner_walk ext cur head tail pts i ws = Inr (pts1, i1, ws @ new1)"
    "0 \<le> i1" "i1 \<le> i" "map curvature pts1 = map curvature pts"
    "trace_ok pts new1" "replay pts new1 = pts1"
    "\<forall>w\<in>set new1. written_in ext cur head tail w \<and> w_index w < length pts \<and>
        curvature (w_before w) = curvature (pts ! w_index w)"
    by blast
  have len: "length pts1 = length pts" using a(4) by (metis length_map)
  then have "i1 < int (length pts1)" using a(3) "3.prems" by simp
  from "3.IH"(2) [OF a(2) this, of "ws @ new1"]
  obtain pts2 i2 new2 where b:
    "outer_walk ext cur (head # rest) (pts1, i1, (ws @ new1)) = Inr (pts2, i2, (ws @ new1) @ new2)"
    "0 \<le> i2" "i2 \<le> i1" "map curvature pts2 = map curvature pts1"
    "trace_ok pts1 new2" "replay pts1 new2 = pts2"
    "\<forall>w\<in>set new2. (\<exists>h t. (t, h) \<in> set (consecutive (head # rest)) \<and>
                                      written_in ext cur h t w) \<and>
        w_index w < length pts1 \<and> curvature (w_before w) = curvature (pts1 ! w_index w)"
    by blast
  have cur_eq: "curvature (pts1 ! k) = curvature (pts ! k)" if "k < length pts" for k
    using a(4) that len by (metis nth_map)
  have "outer_walk ext cur (tail # head # rest) (pts, i, ws) = Inr (pts2, i2, ws @ (new1 @ new2))"
    using a(1) b(1) by simp
  moreover have "trace_ok pts (new1 @ new2)" using a(5,6) b(5) by (simp add: trace_ok_append)
  moreover have "replay pts (new1 @ new2) = pts2" using a(6) b(6) by (simp add: replay_append)
  moreover have "\<forall>w\<in>set (new1 @ new2).
      (\<exists>h t. (t, h) \<in> set (consecutive (tail # head # rest)) \<and> written_in ext cur h t w) \<and>
      w_index w < length pts \<and> curvature (w_before w) = curvature (pts ! w_index w)"
  proof
    fix w assume "w \<in> set (new1 @ new2)"
    then consider "w \<in> set new1" | "w \<in> set new2" by auto
    then show "(\<exists>h t. (t, h) \<in> set (consecutive (tail # head # rest)) \<and>
          written_in ext cur h t w) \<and>
        w_index w < length pts \<and> curvature (w_before w) = curvature (pts ! w_index w)"
    proof cases
      case 1
      with a(7) show ?thesis by auto
    next
      case 2
      with b(7) len cur_eq show ?thesis by fastforce
    qed
  qed
  ultimately show ?case using b(2,3,4) a(3,4)
    by (intro exI [of _ pts2] exI [of _ i2] exI [of _ "new1 @ new2"]) simp
qed

lemma smul_half_square: "smul dt (smul dt (smul (1 / 2) a)) = smul (1 / 2 * dt ^ 2) a"
  by (cases a) (simp add: power2_eq_square)

lemma compensate_deskewed_point:
  "compensate ext cur head tail p =
     deskewed_point (SO3_exp ext) (rot cur) (pos cur) (rot_ext cur) (pos_ext cur) head tail p"
  by (cases p) (simp add: compensate_def deskewed_point_def Let_def smul_half_square)

lemma undistort_result:
  assumes "cloud package \<noteq> []"
  shows "\<exists>pts' new.
      undistort ext package s = Inr (propagate ext package s, package\<lparr>cloud := pts'\<rparr>, new) \<and>
      map curvature pts' = map curvature (sort_key curvature (cloud package)) \<and>
      trace_ok (sort_key curvature (cloud package)) new \<and>
      replay (sort_key curvature (cloud package)) new = pts' \<and>
      (\<forall>w\<in>set new.
         (\<exists>head tail. (head, tail) \<in> set (consecutive (m_imu_poses_cache (propagate ext package s)))
              \<and> written_in ext (kf_x (m_kf (propagate ext package s))) head tail w) \<and>
         w_index w < length (cloud package) \<and>
         curvature (w_before w) = curvature (sort_key curvature (cloud package) ! w_index w))"
proof -
  let ?s = "propagate ext package s"
  let ?pts = "sort_key curvature (cloud package)"
  have ne: "m_imu_poses_cache ?s \<noteq> []"
    using propagate_cache_length [of ext package s] by auto
  have "0 \<le> int (length ?pts) - 1" "int (length ?pts) - 1 < int (length ?pts)"
    using assms by (simp_all add: Suc_le_eq)
  from outer_walk_result [OF this, of ext "kf_x (m_kf ?s)" "rev (m_imu_poses_cache ?s)" "[]"]
  obtain pts' i' new where r:
    "outer_walk ext (kf_x (m_kf ?s)) (rev (m_imu_poses_cache ?s)) (?pts, int (length ?pts) - 1, [])
       = Inr (pts', i', new)"
    "map curvature pts' = map curvature ?pts"
    "trace_ok ?pts new" "replay ?pts new = pts'"
    "\<forall>w\<in>set new. (\<exists>head tail. (tail, head) \<in> set (consecutive (rev (m_imu_poses_cache ?s))) \<and>
                                      written_in ext (kf_x (m_kf ?s)) head tail w) \<and>
                         w_index w < length ?pts \<and>
                         curvature (w_before w) = curvature (?pts ! w_index w)"
    by auto
  have "undistort ext package s = Inr (?s, package\<lparr>cloud := pts'\<rparr>, new)"
    using r(1) ne by (simp add: undistort_def deskew_def Let_def)
  moreover have "\<forall>w\<in>set new.
         (\<exists>head tail. (head, tail) \<in> set (consecutive (m_imu_poses_cache ?s))
              \<and> written_in ext (kf_x (m_kf ?s)) head tail w) \<and>
         w_index w < length (cloud package) \<and>
         curvature (w_before w) = curvature (?pts ! w_index w)"
    using r(5) by (fastforce simp: set_consecutive_rev)
  ultimately show ?thesis using r(2,3,4) by blast
qed

lemma undistort_on_empty_scan:
  assumes "cloud package = []"
  shows "undistort ext package s =
     (if executed (m_last_end_time s) (m_last_imu s # imus package) = []
      then Inr (propagate ext package s, package, [])
      else Inl IteratorOutOfRange)"
proof -
  let ?s = "propagate ext package s"
  obtain seed es where c: "m_imu_poses_cache ?s = seed # es"
    "length es = length (executed (m_last_end_time s) (m_last_imu s # imus package))"
    using propagate_cache [of ext package s] by (metis length_map)
  show ?thesis
  proof (cases es rule: rev_cases)
    case Nil
    with c assms show ?thesis by (simp add: undistort_def deskew_def Let_def)
  next
    case (snoc es' e)
    then have "rev (m_imu_poses_cache ?s) = e # rev es' @ [seed]" using c by simp
    then obtain h r where "rev (m_imu_poses_cache ?s) = e # h # r"
      by (cases "rev es'") auto
    with c snoc assms show ?thesis
      by (auto simp: undistort_def deskew_def Let_def inner_walk_fault)
  qed
qed

lemma undistort_Inr_cases:
  assumes "undistort ext package s = Inr (s', package', ws)"
  shows "s' = propagate ext package s \<and>
         cloud package' = replay (sort_key curvature (cloud package)) ws \<and>
         trace_ok (sort_key curvature (cloud package)) ws \<and>
         map curvature (cloud package') = map curvature (sort_key curvature (cloud package)) \<and>
         (\<forall>w\<in>set ws.
           (\<exists>head tail. (head, tail) \<in> set (consecutive (m_imu_poses_cache s'))
              \<and> written_in ext (kf_x (m_kf s')) head tail w) \<and>
           w_index w < length (cloud package) \<and>
           curvature (w_before w) = curvature (sort_key curvature (cloud package) ! w_index w))"
proof (cases "cloud package = []")
  case True
  with assms undistort_on_empty_scan [OF True, of ext s] show ?thesis
    by (auto split: if_splits)
next
  case False
  from undistort_result [OF False, of ext s] assms show ?thesis by auto
qed

lemma undistort_pkg_two:
  "undistort ext0 pkg_two proc0 =
     Inr (propagate ext0 pkg_two proc0,
          pkg_two\<lparr>cloud := [point_at 17 1500, point_at (19 / 2) 2500]\<rparr>,
          [\<lparr>w_index = 1, w_head = pose_at 1, w_tail = pose_at 2,
            w_before = point_at 10 2500, w_after = point_at (19 / 2) 2500\<rparr>,
           \<lparr>w_index = 0, w_head = pose_at 1, w_tail = pose_at 2,
            w_before = point_at 20 1500, w_after = point_at (37 / 2) 1500\<rparr>,
           \<lparr>w_index = 0, w_head = pose_at 0, w_tail = pose_at 1,
            w_before = point_at (37 / 2) 1500, w_after = point_at 17 1500\<rparr>])"
  by (simp add: ex_defs pkg_two_def pose_at_def point_at_def eval_defs)

lemma undistort_pkg_three:
  "undistort ext0 pkg_three proc0 =
     Inr (propagate ext0 pkg_three proc0,
          pkg_three\<lparr>cloud := [point_at 30 0, point_at (37 / 2) 1500, point_at (19 / 2) 2500]\<rparr>,
          [\<lparr>w_index = 2, w_head = pose_at 1, w_tail = pose_at 2,
            w_before = point_at 10 2500, w_after = point_at (19 / 2) 2500\<rparr>,
           \<lparr>w_index = 1, w_head = pose_at 1, w_tail = pose_at 2,
            w_before = point_at 20 1500, w_after = point_at (37 / 2) 1500\<rparr>])"
  by (simp add: ex_defs pkg_three_def pose_at_def point_at_def eval_defs)

text \<open>
  C1. Every overwrite made by a call of \<open>undistort\<close> that returns belongs to an interval
  (head, tail) of consecutive pose-cache entries, is made for a point whose offset in seconds
  exceeds the offset of head, and stores the coordinates
  \<open>R_ext\<^sup>T (R_end\<^sup>T (R_pt (R_ext p + t_ext) + p_pt - p_end) - t_ext)\<close>, where \<open>dt\<close> is the offset
  of the point in seconds minus the offset of head, \<open>R_pt\<close> is the rotation of head times the
  rotational exponential of the angular velocity of tail times \<open>dt\<close>, \<open>p_pt\<close> is the
  position of head plus its velocity times \<open>dt\<close> plus half the acceleration of tail times
  \<open>dt\<close> squared, and the end pose and the extrinsic transform are those of the estimator after
  propagation. The overwrites are consistent with the sorted scan and lead to the scan returned.
\<close>

theorem deskew_point_formula:
  assumes "undistort ext package s = Inr (s', package', ws)"
  shows "s' = propagate ext package s \<and>
         trace_ok (sort_key curvature (cloud package)) ws \<and>
         cloud package' = replay (sort_key curvature (cloud package)) ws \<and>
         (\<forall>w\<in>set ws. \<exists>head tail.
            (head, tail) \<in> set (consecutive (m_imu_poses_cache s')) \<and>
            w_head w = head \<and> w_tail w = tail \<and>
            offset head < curvature (w_before w) / 1000 \<and>
            w_after w =
              deskewed_point (SO3_exp ext) (rot (kf_x (m_kf s'))) (pos (kf_x (m_kf s')))
                (rot_ext (kf_x (m_kf s'))) (pos_ext (kf_x (m_kf s'))) head tail (w_before w))"
proof -
  note r = undistort_Inr_cases [OF assms]
  have "\<exists>head tail.
            (head, tail) \<in> set (consecutive (m_imu_poses_cache s')) \<and>
            w_head w = head \<and> w_tail w = tail \<and>
            offset head < curvature (w_before w) / 1000 \<and>
            w_after w =
              deskewed_point (SO3_exp ext) (rot (kf_x (m_kf s'))) (pos (kf_x (m_kf s')))
                (rot_ext (kf_x (m_kf s'))) (pos_ext (kf_x (m_kf s'))) head tail (w_before w)"
    if "w \<in> set ws" for w
  proof -
    from r that obtain head tail where
      "(head, tail) \<in> set (consecutive (m_imu_poses_cache s'))"
      "written_in ext (kf_x (m_kf s')) head tail w"
      by blast
    then show ?thesis
      unfolding written_in_def compensate_deskewed_point by blast
  qed
  with r show ?thesis by blast
qed

theorem deskew_point_formula_witness:
  "undistort ext0 pkg_two proc0 =
     Inr (propagate ext0 pkg_two proc0,
          pkg_two\<lparr>cloud := [point_at 17 1500, point_at (19 / 2) 2500]\<rparr>, writes_two) \<and>
   writes_two ! 0 \<in> set writes_two \<and>
   (\<exists>head tail.
      (head, tail) \<in> set (consecutive (m_imu_poses_cache (propagate ext0 pkg_two proc0))) \<and>
      w_head (writes_two ! 0) = head \<and> w_tail (writes_two ! 0) = tail \<and>
      offset head < curvature (w_before (writes_two ! 0)) / 1000 \<and>
      w_after (writes_two ! 0) =
        deskewed_point (SO3_exp ext0) (rot (kf_x (m_kf (propagate ext0 pkg_two proc0))))
          (pos (kf_x (m_kf (propagate ext0 pkg_two proc0))))
          (rot_ext (kf_x (m_kf (propagate ext0 pkg_two proc0))))
          (pos_ext (kf_x (m_kf (propagate ext0 pkg_two proc0)))) head tail
          (w_before (writes_two ! 0))) \<and>
   w_before (writes_two ! 0) = point_at 10 2500 \<and>
   w_after (writes_two ! 0) = point_at (19 / 2) 2500"
proof -
  have h: "undistort ext0 pkg_two proc0 =
     Inr (propagate ext0 pkg_two proc0,
          pkg_two\<lparr>cloud := [point_at 17 1500, point_at (19 / 2) 2500]\<rparr>, writes_two)"
    using undistort_pkg_two by (simp add: writes_two_def)
  have m: "writes_two ! 0 \<in> set writes_two" by (simp add: writes_two_def)
  have v: "w_before (writes_two ! 0) = point_at 10 2500"
    "w_after (writes_two ! 0) = point_at (19 / 2) 2500"
    by (simp_all add: writes_two_def)
  from deskew_point_formula [OF h] h m v show ?thesis by blast
qed

text \<open>
  C3, as amended. \<open>undistort\<close> returns without reading outside the scan exactly when the scan
  has at least one point or no pair of the window is integrated; in particular it returns for
  every batch with an empty list of inertial samples, also with an empty scan.
\<close>

theorem undistort_no_fault_iff:
  "((\<exists>r. undistort ext package s = Inr r) \<longleftrightarrow>
      cloud package \<noteq> [] \<or>
      filter (\<lambda>(head, tail). m_last_end_time s \<le> timestamp tail)
        (consecutive (m_last_imu s # imus package)) = []) \<and>
   (imus package = [] \<longrightarrow> (\<exists>r. undistort ext package s = Inr r))"
proof -
  have ex: "executed (m_last_end_time s) (m_last_imu s # imus package) =
      filter (\<lambda>(head, tail). m_last_end_time s \<le> timestamp tail)
        (consecutive (m_last_imu s # imus package))"
    by (simp add: executed_def case_prod_unfold not_less)
  have iff: "(\<exists>r. undistort ext package s = Inr r) \<longleftrightarrow>
      cloud package \<noteq> [] \<or> executed (m_last_end_time s) (m_last_imu s # imus package) = []"
  proof (cases "cloud package = []")
    case True
    then show ?thesis using undistort_on_empty_scan [OF True, of ext s] by simp
  next
    case False
    then show ?thesis using undistort_result [OF False, of ext s] by auto
  qed
  moreover have "executed (m_last_end_time s) (m_last_imu s # imus package) = []"
    if "imus package = []"
    using that by (simp add: executed_simps)
  ultimately show ?thesis unfolding ex by blast
qed

theorem undistort_no_fault_iff_witness:
  "cloud pkg_two \<noteq> [] \<and> (\<exists>r. undistort ext0 pkg_two proc0 = Inr r) \<and>
   imus pkg_idle = [] \<and> cloud pkg_idle = [] \<and> (\<exists>r. undistort ext0 pkg_idle proc0 = Inr r)"
proof -
  have h1: "cloud pkg_two \<noteq> []" by (simp add: pkg_two_def)
  have h2: "imus pkg_idle = []" "cloud pkg_idle = []" by (simp_all add: pkg_idle_def)
  from undistort_no_fault_iff [of ext0 pkg_two proc0] h1 have "\<exists>r. undistort ext0 pkg_two proc0 = Inr r" by blast
  moreover from undistort_no_fault_iff [of ext0 pkg_idle proc0] h2
  have "\<exists>r. undistort ext0 pkg_idle proc0 = Inr r" by blast
  ultimately show ?thesis using h1 h2 by blast
qed

text \<open>
  C3, as stated, fails: with an empty scan and one integrated pair the inner loop reads
  through the iterator one before the first point.
\<close>

theorem undistort_empty_scan_faults:
  "undistort ext0 pkg_empty_scan proc0 = Inl IteratorOutOfRange"
  by (simp add: undistort_on_empty_scan pkg_empty_scan_def executed_simps ex_defs)

text \<open>
  C8. The inner walk stops, changing nothing, at a point whose offset does not exceed the
  offset of head; at the first point of the scan it overwrites that point and ends without
  moving the cursor; and a point of the sorted scan whose offset is at or before the smallest
  offset of the pose cache is overwritten by no step of \<open>undistort\<close> and is returned as it
  was.
\<close>

theorem early_points_untouched:
  "(0 \<le> it_pcl \<and> it_pcl < int (length pts) \<and>
      \<not> curvature (pts ! nat it_pcl) / 1000 > offset head
    \<longrightarrow> inner_walk ext cur head tail pts it_pcl ws = Inr (pts, it_pcl, ws)) \<and>
   (pts \<noteq> [] \<and> curvature (pts ! 0) / 1000 > offset head
    \<longrightarrow> (\<exists>w. inner_walk ext cur head tail pts 0 ws = Inr (pts[0 := w_after w], 0, ws @ [w]))) \<and>
   (undistort ext package s = Inr (s', package', ws') \<and> j < length (cloud package) \<and>
      curvature (sort_key curvature (cloud package) ! j) / 1000
        \<le> Min (offset ` set (m_imu_poses_cache s'))
    \<longrightarrow> j \<notin> w_index ` set ws' \<and>
        cloud package' ! j = sort_key curvature (cloud package) ! j)"
proof (intro conjI impI)
  assume "0 \<le> it_pcl \<and> it_pcl < int (length pts) \<and>
      \<not> curvature (pts ! nat it_pcl) / 1000 > offset head"
  then show "inner_walk ext cur head tail pts it_pcl ws = Inr (pts, it_pcl, ws)"
    by (simp add: inner_walk_stop)
next
  assume "pts \<noteq> [] \<and> curvature (pts ! 0) / 1000 > offset head"
  then show "\<exists>w. inner_walk ext cur head tail pts 0 ws = Inr (pts[0 := w_after w], 0, ws @ [w])"
    using inner_walk_first [of pts head ext cur tail ws]
    by (intro exI [of _ "\<lparr>w_index = 0, w_head = head, w_tail = tail, w_before = pts ! 0,
                  w_after = compensate ext cur head tail (pts ! 0)\<rparr>"]) simp
next
  assume a: "undistort ext package s = Inr (s', package', ws') \<and> j < length (cloud package) \<and>
      curvature (sort_key curvature (cloud package) ! j) / 1000
        \<le> Min (offset ` set (m_imu_poses_cache s'))"
  note r = undistort_Inr_cases [of ext package s s' package' ws']
  have "w_index w \<noteq> j" if "w \<in> set ws'" for w
  proof
    assume eq: "w_index w = j"
    from r a that obtain head tail where
      ht: "(head, tail) \<in> set (consecutive (m_imu_poses_cache s'))"
        "written_in ext (kf_x (m_kf s')) head tail w"
        "curvature (w_before w) = curvature (sort_key curvature (cloud package) ! w_index w)"
      by blast
    from ht(1) have "head \<in> set (m_imu_poses_cache s')"
      by (auto simp: consecutive_def dest: set_zip_leftD)
    then have "Min (offset ` set (m_imu_poses_cache s')) \<le> offset head" by simp
    with ht(2,3) a eq show False by (simp add: written_in_def)
  qed
  then have "j \<notin> w_index ` set ws'" by auto
  moreover from this have "cloud package' ! j = sort_key curvature (cloud package) ! j"
    using r a by (simp add: replay_untouched)
  ultimately show "j \<notin> w_index ` set ws'"
    "cloud package' ! j = sort_key curvature (cloud package) ! j" by simp_all
qed

theorem early_points_untouched_witness:
  "inner_walk ext0 x0 (pose_at 1) (pose_at 2) [point_at 20 1500, point_at 10 500] 1 [] =
     Inr ([point_at 20 1500, point_at 10 500], 1, []) \<and>
   (\<exists>w. inner_walk ext0 x0 (pose_at 1) (pose_at 2) [point_at 20 1500, point_at 10 500] 0 [] =
          Inr ([point_at 20 1500, point_at 10 500][0 := w_after w], 0, [] @ [w])) \<and>
   undistort ext0 pkg_three proc0 =
     Inr (propagate ext0 pkg_three proc0,
          pkg_three\<lparr>cloud := [point_at 30 0, point_at (37 / 2) 1500, point_at (19 / 2) 2500]\<rparr>,
          [\<lparr>w_index = 2, w_head = pose_at 1, w_tail = pose_at 2,
            w_before = point_at 10 2500, w_after = point_at (19 / 2) 2500\<rparr>,
           \<lparr>w_index = 1, w_head = pose_at 1, w_tail = pose_at 2,
            w_before = point_at 20 1500, w_after = point_at (37 / 2) 1500\<rparr>]) \<and>
   curvature (sort_key curvature (cloud pkg_three) ! 0) / 1000
     \<le> Min (offset ` set (m_imu_poses_cache (propagate ext0 pkg_three proc0))) \<and>
   cloud (pkg_three\<lparr>cloud := [point_at 30 0, point_at (37 / 2) 1500, point_at (19 / 2) 2500]\<rparr>) ! 0
     = sort_key curvature (cloud pkg_three) ! 0"
proof -
  let ?pts = "[point_at 20 1500, point_at 10 500]"
  have a1: "(0::int) \<le> 1 \<and> 1 < int (length ?pts) \<and>
      \<not> curvature (?pts ! nat 1) / 1000 > offset (pose_at 1)"
    by (simp add: point_at_def pose_at_def)
  have a2: "?pts \<noteq> [] \<and> curvature (?pts ! 0) / 1000 > offset (pose_at 1)"
    by (simp add: point_at_def pose_at_def)
  have a3: "(0::nat) < length (cloud pkg_three) \<and>
      curvature (sort_key curvature (cloud pkg_three) ! 0) / 1000
        \<le> Min (offset ` set (m_imu_poses_cache (propagate ext0 pkg_three proc0)))"
    by (simp add: propagate_pkg_three_cache) (simp add: pkg_three_def pose_at_def)
  note t = early_points_untouched [of 1 ?pts "pose_at 1" ext0 x0 "pose_at 2" "[]" pkg_three proc0
      "propagate ext0 pkg_three proc0"
      "pkg_three\<lparr>cloud := [point_at 30 0, point_at (37 / 2) 1500, point_at (19 / 2) 2500]\<rparr>"
      "[\<lparr>w_index = 2, w_head = pose_at 1, w_tail = pose_at 2,
            w_before = point_at 10 2500, w_after = point_at (19 / 2) 2500\<rparr>,
           \<lparr>w_index = 1, w_head = pose_at 1, w_tail = pose_at 2,
            w_before = point_at 20 1500, w_after = point_at (37 / 2) 1500\<rparr>]" 0]
  from t a1 a2 a3 undistort_pkg_three show ?thesis by blast
qed

text \<open>
  C9. \<open>undistort\<close> sorts the scan by offset itself: it faults only on an empty scan, and
  otherwise the scan it returns is ascending in offset and has the offsets of the scan it was
  given; sorting the scan beforehand changes nothing.
\<close>

theorem undistort_sorts_scan:
  "(case undistort ext package s of
      Inl e \<Rightarrow> cloud package = []
    | Inr r \<Rightarrow> sorted (map curvature (cloud (fst (snd r)))) \<and>
              mset (map curvature (cloud (fst (snd r)))) = mset (map curvature (cloud package)) \<and>
              map curvature (cloud (fst (snd r))) =
                map curvature (sort_key curvature (cloud package))) \<and>
   undistort ext (package\<lparr>cloud := sort_key curvature (cloud package)\<rparr>) s =
     undistort ext package s"
proof
  show "case undistort ext package s of
      Inl e \<Rightarrow> cloud package = []
    | Inr r \<Rightarrow> sorted (map curvature (cloud (fst (snd r)))) \<and>
              mset (map curvature (cloud (fst (snd r)))) = mset (map curvature (cloud package)) \<and>
              map curvature (cloud (fst (snd r))) =
                map curvature (sort_key curvature (cloud package))"
  proof (cases "undistort ext package s")
    case (Inl e)
    then have "cloud package = []" using undistort_result [of package ext s] by auto
    with Inl show ?thesis by simp
  next
    case (Inr r)
    obtain s' package' ws where r: "r = (s', package', ws)" by (cases r) auto
    have "undistort ext package s = Inr (s', package', ws)" using Inr r by simp
    from undistort_Inr_cases [OF this]
    have m: "map curvature (cloud package') = map curvature (sort_key curvature (cloud package))"
      by blast
    have "sorted (map curvature (sort_key curvature (cloud package)))"
      by (rule sorted_sort_key)
    moreover have "mset (map curvature (sort_key curvature (cloud package))) =
        mset (map curvature (cloud package))"
      by simp
    ultimately show ?thesis using Inr r m by simp
  qed
  have "sort_key curvature (sort_key curvature (cloud package)) = sort_key curvature (cloud package)"
    by (simp add: sort_key_id_if_sorted)
  then show "undistort ext (package\<lparr>cloud := sort_key curvature (cloud package)\<rparr>) s =
     undistort ext package s"
    by (simp add: undistort_def propagate_cloud_irrelevant Let_def cong: sum.case_cong)
qed

theorem undistort_sorts_scan_witness:
  "map curvature (cloud pkg_two) = [2500, 1500] \<and>
   undistort ext0 pkg_two proc0 =
     Inr (propagate ext0 pkg_two proc0,
          pkg_two\<lparr>cloud := [point_at 17 1500, point_at (19 / 2) 2500]\<rparr>, writes_two) \<and>
   sorted (map curvature [point_at 17 1500, point_at (19 / 2) 2500])"
proof -
  have h: "undistort ext0 pkg_two proc0 =
     Inr (propagate ext0 pkg_two proc0,
          pkg_two\<lparr>cloud := [point_at 17 1500, point_at (19 / 2) 2500]\<rparr>, writes_two)"
    using undistort_pkg_two by (simp add: writes_two_def)
  have "map curvature (cloud pkg_two) = [2500, 1500]" by (simp add: pkg_two_def)
  with undistort_sorts_scan [where ext = ext0 and package = pkg_two and s = proc0] h show ?thesis by simp
qed

text \<open>
  C10. In one call of \<open>undistort\<close> on a scan of two points with offsets 1.5 s and 2.5 s and
  a pose cache with offsets 0, 1, 2, the earliest point is overwritten twice: once for the
  interval with head offset 1, where the walk breaks at the first point, and again for the
  interval with head offset 0, from the coordinates the first overwrite stored.
\<close>

theorem earliest_point_overwritten_twice:
  "undistort ext0 pkg_two proc0 =
     Inr (propagate ext0 pkg_two proc0,
          pkg_two\<lparr>cloud := [point_at 17 1500, point_at (19 / 2) 2500]\<rparr>, writes_two) \<and>
   sort_key curvature (cloud pkg_two) = [point_at 20 1500, point_at 10 2500] \<and>
   map offset (m_imu_poses_cache (propagate ext0 pkg_two proc0)) = [0, 1, 2] \<and>
   map w_index writes_two = [1, 0, 0] \<and>
   map (offset \<circ> w_head) writes_two = [1, 1, 0] \<and>
   w_before (writes_two ! 1) = point_at 20 1500 \<and>
   w_after (writes_two ! 1) = point_at (37 / 2) 1500 \<and>
   w_before (writes_two ! 2) = w_after (writes_two ! 1) \<and>
   w_after (writes_two ! 2) = point_at 17 1500"
proof -
  have "undistort ext0 pkg_two proc0 =
     Inr (propagate ext0 pkg_two proc0,
          pkg_two\<lparr>cloud := [point_at 17 1500, point_at (19 / 2) 2500]\<rparr>, writes_two)"
    using undistort_pkg_two by (simp add: writes_two_def)
  moreover have "sort_key curvature (cloud pkg_two) = [point_at 20 1500, point_at 10 2500]"
    by (simp add: pkg_two_def point_at_def)
  moreover have "map offset (m_imu_poses_cache (propagate ext0 pkg_two proc0)) = [0, 1, 2]"
    by (simp add: propagate_pkg_two_cache pose_at_def)
  ultimately show ?thesis by (simp add: writes_two_def pose_at_def)
qed

section \<open>Initialization\<close>

lemma initialize_not_ready:
  "length (m_imu_cache s @ imus_in) < imu_init_num (m_config s) \<Longrightarrow>
   initialize ext imus_in s = Inr (False, s\<lparr>m_imu_cache := m_imu_cache s @ imus_in\<rparr>)"
  by (simp add: initialize_def Let_def)

lemma foldl_pair_sums:
  "foldl (\<lambda>(a, g) imu. (vadd a (imu_acc imu), vadd g (imu_gyro imu))) (a0, g0) cache =
     (foldl vadd a0 (map imu_acc cache), foldl vadd g0 (map imu_gyro cache))"
  by (induction cache arbitrary: a0 g0) simp_all

lemma initialize_ready:
  assumes "\<not> length (m_imu_cache s @ imus_in) < imu_init_num (m_config s)"
    and "m_imu_cache s @ imus_in \<noteq> []"
  shows "initialize ext imus_in s =
     Inr (True, s\<lparr>m_imu_cache := m_imu_cache s @ imus_in,
                  m_kf := (m_kf s)\<lparr>kf_x := seeded_state ext (m_config s)
                                     (vmean (map imu_acc (m_imu_cache s @ imus_in)))
                                     (vmean (map imu_gyro (m_imu_cache s @ imus_in)))
                                     (kf_x (m_kf s)),
                                 kf_P := seeded_cov\<rparr>,
                  m_last_imu := last (m_imu_cache s @ imus_in)\<rparr>)"
  using assms
  by (simp add: initialize_def Let_def foldl_pair_sums seeded_state_def seeded_cov_def
      vmean_def vsum_def del: foldl_append map_append)

lemma initialize_fault:
  "imu_init_num (m_config s) = 0 \<Longrightarrow> m_imu_cache s = [] \<Longrightarrow>
   initialize ext [] s = Inl EmptyVectorBack"
  by (simp add: initialize_def Let_def)

lemma foldl_vadd_const:
  "\<forall>v\<in>set vs. v = a \<Longrightarrow> foldl vadd v0 vs = vadd v0 (smul (real (length vs)) a)"
proof (induction vs arbitrary: v0)
  case Nil
  then show ?case by (cases v0; cases a) simp
next
  case (Cons v vs)
  then show ?case by (cases v0; cases a) (simp add: algebra_simps)
qed

lemma vmean_const:
  assumes "vs \<noteq> []" and "\<forall>v\<in>set vs. v = a"
  shows "vmean vs = a"
proof -
  have "0 < real (length vs)" using assms(1) by simp
  then show ?thesis
    using foldl_vadd_const [OF assms(2), of vzero]
    by (cases a) (simp add: vmean_def vsum_def vzero_def)
qed

lemma normalized_up: "0 < g \<Longrightarrow> normalized (0, 0, g) = (0, 0, 1)"
  by (simp add: normalized_def)

lemma initG_scaled_up: "0 < g \<Longrightarrow> initG_scaled g (0, 0, g) x = x\<lparr>grav := (0, 0, g)\<rparr>"
  by (simp add: initG_scaled_def normalized_up)

lemma initialize_stationary:
  "initialize (ext0\<lparr>initG := G\<rparr>) stationary_imus proc0 = Inr (True, proc_seeded G)"
  by (simp add: initialize_def Let_def ex_defs stationary_imus_def proc_seeded_def seeded_cov_def)

text \<open>
  C7, as amended. \<open>initialize\<close> returns not-ready exactly while the accumulated buffer is
  smaller than the configured threshold, and then only the buffer has changed: the estimator's
  state and covariance are as before. Once the threshold is reached and at least one sample
  has been accumulated, it returns ready; a ready return happens only at or above the
  threshold.
\<close>

theorem initialize_ready_iff_threshold:
  "(length (m_imu_cache s @ imus_in) < imu_init_num (m_config s) \<longrightarrow>
      initialize ext imus_in s = Inr (False, s\<lparr>m_imu_cache := m_imu_cache s @ imus_in\<rparr>)) \<and>
   (imu_init_num (m_config s) \<le> length (m_imu_cache s @ imus_in) \<and>
    m_imu_cache s @ imus_in \<noteq> [] \<longrightarrow>
      (\<exists>s'. initialize ext imus_in s = Inr (True, s'))) \<and>
   (\<forall>s'. initialize ext imus_in s = Inr (False, s') \<longrightarrow>
      length (m_imu_cache s @ imus_in) < imu_init_num (m_config s) \<and>
      kf_x (m_kf s') = kf_x (m_kf s) \<and> kf_P (m_kf s') = kf_P (m_kf s) \<and> m_kf s' = m_kf s) \<and>
   (\<forall>s'. initialize ext imus_in s = Inr (True, s') \<longrightarrow>
      imu_init_num (m_config s) \<le> length (m_imu_cache s @ imus_in))"
proof (cases "length (m_imu_cache s @ imus_in) < imu_init_num (m_config s)")
  case True
  then show ?thesis using initialize_not_ready [OF True, of ext] by simp
next
  case False
  show ?thesis
  proof (cases "m_imu_cache s @ imus_in = []")
    case e: True
    with False have "initialize ext imus_in s = Inl EmptyVectorBack"
      using initialize_fault [of s ext] by simp
    with False e show ?thesis by simp
  next
    case ne: False
    from initialize_ready [OF False ne, of ext] False show ?thesis by simp
  qed
qed

theorem initialize_ready_iff_threshold_witness:
  "length (m_imu_cache proc0 @ [imu_at 1]) < imu_init_num (m_config proc0) \<and>
   initialize ext0 [imu_at 1] proc0 = Inr (False, proc0\<lparr>m_imu_cache := [imu_at 1]\<rparr>) \<and>
   kf_x (m_kf (proc0\<lparr>m_imu_cache := [imu_at 1]\<rparr>)) = kf_x (m_kf proc0) \<and>
   kf_P (m_kf (proc0\<lparr>m_imu_cache := [imu_at 1]\<rparr>)) = kf_P (m_kf proc0) \<and>
   imu_init_num (m_config proc0) \<le> length (m_imu_cache proc0 @ stationary_imus) \<and>
   m_imu_cache proc0 @ stationary_imus \<noteq> [] \<and>
   (\<exists>s'. initialize ext0 stationary_imus proc0 = Inr (True, s'))"
proof -
  have h1: "length (m_imu_cache proc0 @ [imu_at 1]) < imu_init_num (m_config proc0)"
    by (simp add: ex_defs)
  have c: "m_imu_cache proc0 @ [imu_at 1] = [imu_at 1]" by (simp add: ex_defs)
  have h2: "imu_init_num (m_config proc0) \<le> length (m_imu_cache proc0 @ stationary_imus) \<and>
      m_imu_cache proc0 @ stationary_imus \<noteq> []"
    by (simp add: ex_defs stationary_imus_def)
  from initialize_ready_iff_threshold [of proc0 "[imu_at 1]" ext0] h1 c
  have a: "initialize ext0 [imu_at 1] proc0 = Inr (False, proc0\<lparr>m_imu_cache := [imu_at 1]\<rparr>)"
    by simp
  with initialize_ready_iff_threshold [of proc0 "[imu_at 1]" ext0]
  have b: "kf_x (m_kf (proc0\<lparr>m_imu_cache := [imu_at 1]\<rparr>)) = kf_x (m_kf proc0)"
    "kf_P (m_kf (proc0\<lparr>m_imu_cache := [imu_at 1]\<rparr>)) = kf_P (m_kf proc0)"
    by simp_all
  from initialize_ready_iff_threshold [of proc0 stationary_imus ext0] h2
  have "\<exists>s'. initialize ext0 stationary_imus proc0 = Inr (True, s')" by blast
  with h1 h2 a b show ?thesis by blast
qed

text \<open>
  C7, as stated, fails: with the threshold 0 and no sample accumulated the threshold is
  reached, and the call does not return ready: it takes \<open>back()\<close> of the empty buffer.
\<close>

theorem initialize_zero_threshold_faults:
  "imu_init_num (m_config proc_zero) = 0 \<and>
   length (m_imu_cache proc_zero @ []) = 0 \<and>
   initialize ext0 [] proc_zero = Inl EmptyVectorBack"
proof -
  have a: "imu_init_num (m_config proc_zero) = 0" "m_imu_cache proc_zero = []"
    by (simp_all add: proc_zero_def IMUProcessor_new_def)
  from initialize_fault [OF a, of ext0] a show ?thesis by simp
qed

text \<open>
  C4, as amended. After a ready call of \<open>initialize\<close> under the no-align policy, when every
  accumulated sample has acceleration \<open>(0, 0, -g)\<close> and angular velocity 0, the state is seeded
  with gyro bias 0 and with \<open>initG\<close> applied to the negated mean acceleration \<open>(0, 0, g)\<close>.
  With \<open>initG\<close> as the specification describes it, the gyro bias is 0, the gravity is
  \<open>(0, 0, g)\<close> and the attitude is the one the estimator had before the call.
\<close>

theorem initialize_no_align_stationary:
  assumes "initialize ext imus_in s = Inr (True, s')"
    and "\<not> gravity_align (m_config s)"
    and "\<forall>imu\<in>set (m_imu_cache s @ imus_in).
           imu_acc imu = (0, 0, - g) \<and> imu_gyro imu = (0, 0, 0)"
  shows "kf_x (m_kf s') =
           initG ext (0, 0, g)
             ((kf_x (m_kf s))\<lparr>rot_ext := r_il (m_config s), pos_ext := p_il (m_config s),
                               bg := (0, 0, 0)\<rparr>) \<and>
         (initG ext = initG_direct \<or> initG ext = initG_scaled g \<and> 0 < g \<longrightarrow>
            bg (kf_x (m_kf s')) = (0, 0, 0) \<and>
            grav (kf_x (m_kf s')) = (0, 0, g) \<and>
            rot (kf_x (m_kf s')) = rot (kf_x (m_kf s)))"
proof -
  let ?cache = "m_imu_cache s @ imus_in"
  have ge: "\<not> length ?cache < imu_init_num (m_config s)"
    using assms(1) initialize_not_ready [of s imus_in ext] by auto
  have ne: "?cache \<noteq> []"
  proof
    assume "?cache = []"
    with ge have "initialize ext imus_in s = Inl EmptyVectorBack"
      using initialize_fault [of s ext] by simp
    with assms(1) show False by simp
  qed
  have ma: "vmean (map imu_acc ?cache) = (0, 0, - g)"
    using ne assms(3) by (intro vmean_const) (simp_all del: map_append)
  have mg: "vmean (map imu_gyro ?cache) = (0, 0, 0)"
    using ne assms(3) by (intro vmean_const) (simp_all del: map_append)
  have x: "kf_x (m_kf s') =
      initG ext (0, 0, g)
        ((kf_x (m_kf s))\<lparr>rot_ext := r_il (m_config s), pos_ext := p_il (m_config s),
                          bg := (0, 0, 0)\<rparr>)"
    using initialize_ready [OF ge ne, of ext] assms(1,2)
    by (simp add: seeded_state_def ma mg del: map_append)
  moreover have "bg (kf_x (m_kf s')) = (0, 0, 0) \<and> grav (kf_x (m_kf s')) = (0, 0, g) \<and>
      rot (kf_x (m_kf s')) = rot (kf_x (m_kf s))"
    if "initG ext = initG_direct \<or> initG ext = initG_scaled g \<and> 0 < g"
    using that x by (auto simp: initG_direct_def initG_scaled_up)
  ultimately show ?thesis by blast
qed

theorem initialize_no_align_stationary_witness:
  "initialize ext0 stationary_imus proc0 = Inr (True, proc_seeded initG_direct) \<and>
   \<not> gravity_align (m_config proc0) \<and>
   map imu_acc (m_imu_cache proc0 @ stationary_imus) =
     [(0, 0, - (981 / 100)), (0, 0, - (981 / 100))] \<and>
   map imu_gyro (m_imu_cache proc0 @ stationary_imus) = [(0, 0, 0), (0, 0, 0)] \<and>
   initG ext0 = initG_direct \<and>
   bg (kf_x (m_kf (proc_seeded initG_direct))) = (0, 0, 0) \<and>
   grav (kf_x (m_kf (proc_seeded initG_direct))) = (0, 0, 981 / 100) \<and>
   rot (kf_x (m_kf (proc_seeded initG_direct))) = rot (kf_x (m_kf proc0))"
proof -
  have h1: "initialize ext0 stationary_imus proc0 = Inr (True, proc_seeded initG_direct)"
    using initialize_stationary [of initG_direct] by (simp add: ext0_def)
  have h2: "\<not> gravity_align (m_config proc0)" by (simp add: ex_defs)
  have h3: "\<forall>imu\<in>set (m_imu_cache proc0 @ stationary_imus).
      imu_acc imu = (0, 0, - (981 / 100)) \<and> imu_gyro imu = (0, 0, 0)"
    by (simp add: ex_defs stationary_imus_def)
  have h4: "initG ext0 = initG_direct" by (simp add: ext0_def)
  have h5: "map imu_acc (m_imu_cache proc0 @ stationary_imus) =
      [(0, 0, - (981 / 100)), (0, 0, - (981 / 100))]"
    "map imu_gyro (m_imu_cache proc0 @ stationary_imus) = [(0, 0, 0), (0, 0, 0)]"
    by (simp_all add: ex_defs stationary_imus_def)
  from initialize_no_align_stationary [OF h1 h2 h3] h1 h2 h4 h5 show ?thesis by blast
qed

text \<open>
  C4, as stated, fails: with two stationary samples of acceleration \<open>(0, 0, -9.81)\<close> the
  gravity seeded under the no-align policy is \<open>(0, 0, 9.81)\<close>, under either reading of
  \<open>initG\<close>.
\<close>

theorem initialize_no_align_gravity_sign:
  "initialize ext0 stationary_imus proc0 = Inr (True, proc_seeded initG_direct) \<and>
   \<not> gravity_align (m_config proc0) \<and>
   m_imu_cache proc0 = [] \<and>
   map imu_acc stationary_imus = [(0, 0, - (981 / 100)), (0, 0, - (981 / 100))] \<and>
   map imu_gyro stationary_imus = [(0, 0, 0), (0, 0, 0)] \<and>
   grav (kf_x (m_kf (proc_seeded initG_direct))) = (0, 0, 981 / 100) \<and>
   grav (kf_x (m_kf (proc_seeded initG_direct))) \<noteq> (0, 0, - (981 / 100)) \<and>
   initialize (ext0\<lparr>initG := initG_scaled (981 / 100)\<rparr>) stationary_imus proc0 =
     Inr (True, proc_seeded (initG_scaled (981 / 100))) \<and>
   grav (kf_x (m_kf (proc_seeded (initG_scaled (981 / 100))))) \<noteq> (0, 0, - (981 / 100))"
proof -
  have a: "initialize ext0 stationary_imus proc0 = Inr (True, proc_seeded initG_direct)"
    using initialize_stationary [of initG_direct] by (simp add: ext0_def)
  have b: "\<not> gravity_align (m_config proc0) \<and> m_imu_cache proc0 = []"
    by (simp add: ex_defs)
  have c: "map imu_acc stationary_imus = [(0, 0, - (981 / 100)), (0, 0, - (981 / 100))] \<and>
      map imu_gyro stationary_imus = [(0, 0, 0), (0, 0, 0)]"
    by (simp add: stationary_imus_def)
  have d: "grav (kf_x (m_kf (proc_seeded initG_direct))) = (0, 0, 981 / 100)"
    by (simp add: proc_seeded_def initG_direct_def)
  have "initG_scaled (981 / 100) (0, 0, 981 / 100) x = x\<lparr>grav := (0, 0, 981 / 100)\<rparr>" for x
    by (rule initG_scaled_up) simp
  then have e: "grav (kf_x (m_kf (proc_seeded (initG_scaled (981 / 100))))) = (0, 0, 981 / 100)"
    by (simp add: proc_seeded_def)
  from a b c d e initialize_stationary [of "initG_scaled (981 / 100)"] show ?thesis
    by simp
qed

end
